theory Spec2Isabelle
  imports Main
begin

section \<open>Python values and exceptions\<close>

text \<open>
  Both scripts work on the object that \<^verbatim>\<open>json.load\<close> returns. A decoded JSON document is
  \<^verbatim>\<open>None\<close>, a \<^verbatim>\<open>bool\<close>, an \<^verbatim>\<open>int\<close>, a \<^verbatim>\<open>float\<close>, a \<^verbatim>\<open>str\<close>, a \<^verbatim>\<open>list\<close> or a
  \<^verbatim>\<open>dict\<close> with string keys. Floats are kept abstract (the type parameter \<open>'f\<close>): the
  scripts only format them, compare them and test their truth value. A \<^verbatim>\<open>dict\<close> is an
  association list in insertion order; a dict has every key once, and a lookup is
  \<open>map_of\<close>.
\<close>

datatype 'f json =
    JNull
  | JBool bool
  | JInt int
  | JFloat 'f
  | JStr string
  | JList "'f json list"
  | JDict "(string \<times> 'f json) list"

text \<open>
  The exceptions the scripts' own code can raise, and \<open>OtherError\<close> for an exception
  raised by \<^verbatim>\<open>open\<close>, \<^verbatim>\<open>json.load\<close> or the diagram library. All of them are subclasses
  of \<^verbatim>\<open>Exception\<close>.
\<close>

datatype error =
    KeyError string
  | TypeError
  | AttributeError
  | NameError string
  | OtherError string

text \<open>
  What the Python runtime does with values the scripts never look inside: \<open>str_of\<close> is
  \<^verbatim>\<open>format(v, '')\<close> of a value that is not a \<^verbatim>\<open>str\<close>, \<open>feq\<close> and \<open>feq_int\<close> are \<^verbatim>\<open>==\<close>
  between two floats and between a float and an int, \<open>ftruth\<close> is the truth value of a
  float, \<open>exc_str\<close> is \<^verbatim>\<open>str(e)\<close> of an exception.
\<close>

record 'f pyrt =
  str_of :: "'f json \<Rightarrow> string"
  feq :: "'f \<Rightarrow> 'f \<Rightarrow> bool"
  feq_int :: "'f \<Rightarrow> int \<Rightarrow> bool"
  ftruth :: "'f \<Rightarrow> bool"
  exc_str :: "error \<Rightarrow> string"

subsection \<open>Strings\<close>

text \<open>\<^verbatim>\<open>h.startswith(n)\<close>\<close>

fun startswith :: "string \<Rightarrow> string \<Rightarrow> bool" where
  "startswith [] h = True"
| "startswith (a # n) [] = False"
| "startswith (a # n) (b # h) = (a = b \<and> startswith n h)"

text \<open>\<^verbatim>\<open>n in h\<close> for two strings: \<open>n\<close> occurs in \<open>h\<close> as a contiguous substring.\<close>

fun str_in :: "string \<Rightarrow> string \<Rightarrow> bool" where
  "str_in n [] = (n = [])"
| "str_in n (b # h) = (startswith n (b # h) \<or> str_in n h)"

text \<open>
  \<^verbatim>\<open>s.split(sep)\<close> for a one-character separator: the pieces between the separators, in
  order; the result is never empty. \<open>split_acc\<close> carries the piece being read.
\<close>

fun split_acc :: "char \<Rightarrow> string \<Rightarrow> string \<Rightarrow> string list" where
  "split_acc sep cur [] = [cur]"
| "split_acc sep cur (c # cs) =
     (if c = sep then cur # split_acc sep [] cs else split_acc sep (cur @ [c]) cs)"

definition split :: "char \<Rightarrow> string \<Rightarrow> string list" where
  "split sep s = split_acc sep [] s"

text \<open>\<^verbatim>\<open>s.split('/')[-1]\<close>\<close>

definition last_segment :: "string \<Rightarrow> string" where
  "last_segment s = last (split (CHR ''/'') s)"

subsection \<open>Subscripts, \<^verbatim>\<open>.get\<close>, iteration, formatting\<close>

text \<open>
  \<^verbatim>\<open>v[key]\<close> with a string key: a \<^verbatim>\<open>dict\<close> gives the value or raises \<^verbatim>\<open>KeyError\<close>; a
  list or a string wants an integer index and every other value has no subscript:
  \<^verbatim>\<open>TypeError\<close>.
\<close>

fun getitem :: "'f json \<Rightarrow> string \<Rightarrow> error + 'f json" where
  "getitem (JDict kvs) key =
     (case map_of kvs key of None \<Rightarrow> Inl (KeyError key) | Some v \<Rightarrow> Inr v)"
| "getitem v key = Inl TypeError"

text \<open>
  The attribute lookup \<^verbatim>\<open>v.get\<close>: only a \<^verbatim>\<open>dict\<close> has the method; on any other decoded
  value it raises \<^verbatim>\<open>AttributeError\<close>. The result is the dict's entries.
\<close>

fun get_method :: "'f json \<Rightarrow> error + (string \<times> 'f json) list" where
  "get_method (JDict kvs) = Inr kvs"
| "get_method v = Inl AttributeError"

text \<open>\<^verbatim>\<open>d.get(key, default)\<close> on a dict, and \<^verbatim>\<open>d.get(key)\<close> whose default is \<^verbatim>\<open>None\<close>.\<close>

definition dict_get :: "(string \<times> 'f json) list \<Rightarrow> string \<Rightarrow> 'f json \<Rightarrow> 'f json" where
  "dict_get kvs key dflt = (case map_of kvs key of None \<Rightarrow> dflt | Some v \<Rightarrow> v)"

definition dict_get1 :: "(string \<times> 'f json) list \<Rightarrow> string \<Rightarrow> 'f json" where
  "dict_get1 kvs key = dict_get kvs key JNull"

text \<open>
  \<^verbatim>\<open>for x in v\<close>: a list yields its elements, a dict its keys, a string its characters as
  one-character strings; any other value is not iterable.
\<close>

fun py_iter :: "'f json \<Rightarrow> error + 'f json list" where
  "py_iter (JList xs) = Inr xs"
| "py_iter (JDict kvs) = Inr (map (\<lambda>kv. JStr (fst kv)) kvs)"
| "py_iter (JStr s) = Inr (map (\<lambda>c. JStr [c]) s)"
| "py_iter v = Inl TypeError"

text \<open>A replacement field \<^verbatim>\<open>{v}\<close> of an f-string: a \<^verbatim>\<open>str\<close> is copied, any other value is
  formatted by the runtime.\<close>

definition py_format :: "('f, 'x) pyrt_scheme \<Rightarrow> 'f json \<Rightarrow> string" where
  "py_format rt v = (case v of JStr s \<Rightarrow> s | _ \<Rightarrow> str_of rt v)"

section \<open>The icon tables\<close>

text \<open>
  The node classes of the diagram library that the two scripts name. \<open>GcpRouter\<close> is
  \<^verbatim>\<open>diagrams.gcp.network.Router\<close> (the \<^verbatim>\<open>Router\<close> of gcp.py), \<open>GenericRouter\<close> is
  \<^verbatim>\<open>diagrams.generic.network.Router\<close> (the \<^verbatim>\<open>Router\<close> of oci.py).
\<close>

datatype icon =
    ComputeEngine | VirtualPrivateCloud | GcpRouter | NAT | FirewallRules | Routes
  | Storage | SQL | Bigquery | Iam | ResourceManager | Subnet
  | Rack | GenericStorage | GenericSQL | Datacenter
  | VM | Vcn | BlockStorage | ObjectStorage | DatabaseService
  | Switch | Firewall | GenericRouter

definition gcp_mappings :: "(string \<times> icon) list" where
  "gcp_mappings =
    [(''google_compute_instance'', ComputeEngine),
     (''google_compute_network'', VirtualPrivateCloud),
     (''google_compute_subnetwork'', Subnet),
     (''google_compute_firewall'', FirewallRules),
     (''google_compute_router'', GcpRouter),
     (''google_compute_router_nat'', NAT),
     (''google_storage_bucket'', Storage),
     (''google_sql_database_instance'', SQL),
     (''google_bigquery_dataset'', Bigquery),
     (''google_iam_policy'', Iam),
     (''google_compute_route'', Routes),
     (''google_project'', ResourceManager)]"

text \<open>
  gcp.py, \<^verbatim>\<open>map_resource_to_icon\<close>. The module imports \<^verbatim>\<open>Subnet\<close> from
  \<^verbatim>\<open>diagrams.generic.network\<close> and never imports \<^verbatim>\<open>Switch\<close>, so the branch
  \<^verbatim>\<open>return Switch\<close> raises \<^verbatim>\<open>NameError\<close> when it is reached. A type that is not a string
  raises \<^verbatim>\<open>TypeError\<close>: a list or dict is unhashable at \<^verbatim>\<open>resource_type in gcp_mappings\<close>,
  and any other value is no key of the table and not iterable at
  \<^verbatim>\<open>'compute' in resource_type\<close>.
\<close>

definition gcp_map_resource_to_icon :: "'f json \<Rightarrow> error + icon" where
  "gcp_map_resource_to_icon resource_type =
    (case resource_type of
       JStr t \<Rightarrow>
         (case map_of gcp_mappings t of
            Some c \<Rightarrow> Inr c
          | None \<Rightarrow>
              if str_in ''compute'' t then Inr Rack
              else if str_in ''network'' t then Inl (NameError ''Switch'')
              else if str_in ''storage'' t then Inr GenericStorage
              else if str_in ''database'' t then Inr GenericSQL
              else if str_in ''security'' t \<or> str_in ''iam'' t then Inr Iam
              else if str_in ''project'' t \<or> str_in ''resource_manager'' t
                then Inr ResourceManager
              else Inr Datacenter)
     | _ \<Rightarrow> Inl TypeError)"

definition oci_mappings :: "(string \<times> icon) list" where
  "oci_mappings =
    [(''oci_core_instance'', VM),
     (''oci_core_vcn'', Vcn),
     (''oci_core_subnet'', Switch),
     (''oci_core_security_list'', Firewall),
     (''oci_core_route_table'', GenericRouter),
     (''oci_core_nat_gateway'', GenericRouter),
     (''oci_core_internet_gateway'', GenericRouter),
     (''oci_core_service_gateway'', GenericRouter),
     (''oci_core_volume'', BlockStorage),
     (''oci_objectstorage_bucket'', ObjectStorage),
     (''oci_database_db_system'', DatabaseService),
     (''oci_core_network_security_group'', Firewall),
     (''oci_core_network_security_group_security_rule'', Firewall)]"

text \<open>
  oci.py, \<^verbatim>\<open>map_resource_to_icon\<close>: \<^verbatim>\<open>oci_mappings.get(resource_type, Datacenter)\<close>. A list
  or dict is unhashable (\<^verbatim>\<open>TypeError\<close>); any other value that is not a string is no key
  of the table.
\<close>

definition oci_map_resource_to_icon :: "'f json \<Rightarrow> error + icon" where
  "oci_map_resource_to_icon resource_type =
    (case resource_type of
       JStr t \<Rightarrow> (case map_of oci_mappings t of Some c \<Rightarrow> Inr c | None \<Rightarrow> Inr Datacenter)
     | JList xs \<Rightarrow> Inl TypeError
     | JDict kvs \<Rightarrow> Inl TypeError
     | _ \<Rightarrow> Inr Datacenter)"

section \<open>Reading the state: \<^verbatim>\<open>parse_terraform_state\<close>\<close>

text \<open>
  One entry of the resource table, the dict \<^verbatim>\<open>{'type': .., 'name': .., 'attributes': ..}\<close>.
  The type and the name are whatever values the state holds. The attributes are the
  entries of a dict: the table is only written after \<^verbatim>\<open>instance['attributes'].get\<close> has
  been looked up, which only a dict allows.
\<close>

record 'f resource =
  rtype :: "'f json"
  rname :: "'f json"
  attributes :: "(string \<times> 'f json) list"

type_synonym 'f table = "(string \<times> 'f resource) list"

text \<open>
  \<^verbatim>\<open>d[k] = v\<close> on a dict in insertion order: an existing key keeps its place and gets the
  new value, a new key goes to the end.
\<close>

primrec dict_set :: "(string \<times> 'v) list \<Rightarrow> string \<Rightarrow> 'v \<Rightarrow> (string \<times> 'v) list" where
  "dict_set [] k v = [(k, v)]"
| "dict_set (p # ps) k v = (if fst p = k then (k, v) # ps else p # dict_set ps k v)"

text \<open>\<^verbatim>\<open>f"{resource_type}.{resource_name}"\<close>\<close>

definition resource_id_of :: "('f, 'x) pyrt_scheme \<Rightarrow> 'f json \<Rightarrow> 'f json \<Rightarrow> string" where
  "resource_id_of rt resource_type resource_name =
     py_format rt resource_type @ ''.'' @ py_format rt resource_name"

text \<open>
  gcp.py, the body of the inner loop up to the table entry it stores: the id and the
  record of one instance. In \<^verbatim>\<open>instance['attributes'].get('name', resource['name'])\<close>
  Python evaluates the subscript, then looks the method up, then evaluates the default
  \<^verbatim>\<open>resource['name']\<close> (also when the attributes have a name), then calls.
\<close>

definition gcp_instance_entry ::
  "('f, 'x) pyrt_scheme \<Rightarrow> 'f json \<Rightarrow> 'f json \<Rightarrow> 'f json \<Rightarrow> error + (string \<times> 'f resource)"
where
  "gcp_instance_entry rt resource resource_type instance =
     (case getitem instance ''attributes'' of Inl e \<Rightarrow> Inl e | Inr attrs \<Rightarrow>
      case get_method attrs of Inl e \<Rightarrow> Inl e | Inr kvs \<Rightarrow>
      case getitem resource ''name'' of Inl e \<Rightarrow> Inl e | Inr dflt \<Rightarrow>
        let resource_name = dict_get kvs ''name'' dflt;
            resource_id = resource_id_of rt resource_type resource_name
        in Inr (resource_id,
                \<lparr>rtype = resource_type, rname = resource_name, attributes = kvs\<rparr>))"

text \<open>gcp.py, the inner loop \<^verbatim>\<open>for instance in resource['instances']\<close>.\<close>

fun gcp_parse_instances ::
  "('f, 'x) pyrt_scheme \<Rightarrow> 'f json \<Rightarrow> 'f json \<Rightarrow> 'f json list \<Rightarrow> 'f table \<Rightarrow> error + 'f table"
where
  "gcp_parse_instances rt resource resource_type [] resources = Inr resources"
| "gcp_parse_instances rt resource resource_type (instance # rest) resources =
     (case gcp_instance_entry rt resource resource_type instance of
        Inl e \<Rightarrow> Inl e
      | Inr entry \<Rightarrow>
          gcp_parse_instances rt resource resource_type rest
            (dict_set resources (fst entry) (snd entry)))"

text \<open>gcp.py, the outer loop \<^verbatim>\<open>for resource in state_data['resources']\<close>.\<close>

fun gcp_parse_resources ::
  "('f, 'x) pyrt_scheme \<Rightarrow> 'f json list \<Rightarrow> 'f table \<Rightarrow> error + 'f table"
where
  "gcp_parse_resources rt [] resources = Inr resources"
| "gcp_parse_resources rt (resource # rest) resources =
     (case getitem resource ''type'' of Inl e \<Rightarrow> Inl e | Inr resource_type \<Rightarrow>
      case getitem resource ''instances'' of Inl e \<Rightarrow> Inl e | Inr insts \<Rightarrow>
      case py_iter insts of Inl e \<Rightarrow> Inl e | Inr instances \<Rightarrow>
      case gcp_parse_instances rt resource resource_type instances resources of
        Inl e \<Rightarrow> Inl e
      | Inr resources' \<Rightarrow> gcp_parse_resources rt rest resources')"

text \<open>gcp.py, \<^verbatim>\<open>parse_terraform_state\<close> after \<^verbatim>\<open>json.load\<close>: the table built from
  \<^verbatim>\<open>state_data\<close>.\<close>

definition gcp_parse_state :: "('f, 'x) pyrt_scheme \<Rightarrow> 'f json \<Rightarrow> error + 'f table" where
  "gcp_parse_state rt state_data =
     (case getitem state_data ''resources'' of Inl e \<Rightarrow> Inl e | Inr rs \<Rightarrow>
      case py_iter rs of Inl e \<Rightarrow> Inl e | Inr xs \<Rightarrow> gcp_parse_resources rt xs [])"

text \<open>
  gcp.py, \<^verbatim>\<open>parse_terraform_state\<close>. \<open>load\<close> stands for \<^verbatim>\<open>open\<close> and \<^verbatim>\<open>json.load\<close>: the
  decoded document of the file at a path, or the exception they raise. The path is the
  value of \<^verbatim>\<open>args.state\<close>, a string or \<^verbatim>\<open>None\<close>.
\<close>

definition gcp_parse_terraform_state ::
  "('f, 'x) pyrt_scheme \<Rightarrow> (string option \<Rightarrow> error + 'f json) \<Rightarrow> string option \<Rightarrow>
   error + 'f table"
where
  "gcp_parse_terraform_state rt load state_file =
     (case load state_file of Inl e \<Rightarrow> Inl e | Inr state_data \<Rightarrow> gcp_parse_state rt state_data)"

text \<open>
  oci.py, the body of the inner loop. The name is
  \<^verbatim>\<open>instance['attributes'].get('display_name', instance['attributes'].get('name', resource['name']))\<close>:
  the outer subscript and method lookup come first, then the inner call is evaluated as
  an argument.
\<close>

definition oci_instance_entry ::
  "('f, 'x) pyrt_scheme \<Rightarrow> 'f json \<Rightarrow> 'f json \<Rightarrow> 'f json \<Rightarrow> error + (string \<times> 'f resource)"
where
  "oci_instance_entry rt resource resource_type instance =
     (case getitem instance ''attributes'' of Inl e \<Rightarrow> Inl e | Inr attrs \<Rightarrow>
      case get_method attrs of Inl e \<Rightarrow> Inl e | Inr kvs \<Rightarrow>
      case getitem instance ''attributes'' of Inl e \<Rightarrow> Inl e | Inr attrs' \<Rightarrow>
      case get_method attrs' of Inl e \<Rightarrow> Inl e | Inr kvs' \<Rightarrow>
      case getitem resource ''name'' of Inl e \<Rightarrow> Inl e | Inr dflt \<Rightarrow>
        let resource_name = dict_get kvs ''display_name'' (dict_get kvs' ''name'' dflt);
            resource_id = resource_id_of rt resource_type resource_name
        in Inr (resource_id,
                \<lparr>rtype = resource_type, rname = resource_name, attributes = kvs\<rparr>))"

fun oci_parse_instances ::
  "('f, 'x) pyrt_scheme \<Rightarrow> 'f json \<Rightarrow> 'f json \<Rightarrow> 'f json list \<Rightarrow> 'f table \<Rightarrow> error + 'f table"
where
  "oci_parse_instances rt resource resource_type [] resources = Inr resources"
| "oci_parse_instances rt resource resource_type (instance # rest) resources =
     (case oci_instance_entry rt resource resource_type instance of
        Inl e \<Rightarrow> Inl e
      | Inr entry \<Rightarrow>
          oci_parse_instances rt resource resource_type rest
            (dict_set resources (fst entry) (snd entry)))"

fun oci_parse_resources ::
  "('f, 'x) pyrt_scheme \<Rightarrow> 'f json list \<Rightarrow> 'f table \<Rightarrow> error + 'f table"
where
  "oci_parse_resources rt [] resources = Inr resources"
| "oci_parse_resources rt (resource # rest) resources =
     (case getitem resource ''type'' of Inl e \<Rightarrow> Inl e | Inr resource_type \<Rightarrow>
      case getitem resource ''instances'' of Inl e \<Rightarrow> Inl e | Inr insts \<Rightarrow>
      case py_iter insts of Inl e \<Rightarrow> Inl e | Inr instances \<Rightarrow>
      case oci_parse_instances rt resource resource_type instances resources of
        Inl e \<Rightarrow> Inl e
      | Inr resources' \<Rightarrow> oci_parse_resources rt rest resources')"

definition oci_parse_state :: "('f, 'x) pyrt_scheme \<Rightarrow> 'f json \<Rightarrow> error + 'f table" where
  "oci_parse_state rt state_data =
     (case getitem state_data ''resources'' of Inl e \<Rightarrow> Inl e | Inr rs \<Rightarrow>
      case py_iter rs of Inl e \<Rightarrow> Inl e | Inr xs \<Rightarrow> oci_parse_resources rt xs [])"

definition oci_parse_terraform_state ::
  "('f, 'x) pyrt_scheme \<Rightarrow> (string option \<Rightarrow> error + 'f json) \<Rightarrow> string option \<Rightarrow>
   error + 'f table"
where
  "oci_parse_terraform_state rt load state_file =
     (case load state_file of Inl e \<Rightarrow> Inl e | Inr state_data \<Rightarrow> oci_parse_state rt state_data)"

subsection \<open>The table entries of a state, in the order the loops produce them\<close>

text \<open>
  \<open>collect f xs\<close> runs \<open>f\<close> on every element in order and concatenates the results; the
  first exception ends it.
\<close>

fun collect :: "('a \<Rightarrow> error + 'b list) \<Rightarrow> 'a list \<Rightarrow> error + 'b list" where
  "collect f [] = Inr []"
| "collect f (x # xs) =
     (case f x of Inl e \<Rightarrow> Inl e | Inr ys \<Rightarrow>
      case collect f xs of Inl e \<Rightarrow> Inl e | Inr zs \<Rightarrow> Inr (ys @ zs))"

definition one_entry :: "error + 'b \<Rightarrow> error + 'b list" where
  "one_entry x = (case x of Inl e \<Rightarrow> Inl e | Inr y \<Rightarrow> Inr [y])"

text \<open>The entries that the instances of one resource produce, and those of a whole state.\<close>

definition gcp_resource_entries ::
  "('f, 'x) pyrt_scheme \<Rightarrow> 'f json \<Rightarrow> error + (string \<times> 'f resource) list"
where
  "gcp_resource_entries rt resource =
     (case getitem resource ''type'' of Inl e \<Rightarrow> Inl e | Inr resource_type \<Rightarrow>
      case getitem resource ''instances'' of Inl e \<Rightarrow> Inl e | Inr insts \<Rightarrow>
      case py_iter insts of Inl e \<Rightarrow> Inl e | Inr instances \<Rightarrow>
        collect (\<lambda>instance. one_entry (gcp_instance_entry rt resource resource_type instance))
          instances)"

definition gcp_state_entries ::
  "('f, 'x) pyrt_scheme \<Rightarrow> 'f json \<Rightarrow> error + (string \<times> 'f resource) list"
where
  "gcp_state_entries rt state_data =
     (case getitem state_data ''resources'' of Inl e \<Rightarrow> Inl e | Inr rs \<Rightarrow>
      case py_iter rs of Inl e \<Rightarrow> Inl e | Inr xs \<Rightarrow> collect (gcp_resource_entries rt) xs)"

definition oci_resource_entries ::
  "('f, 'x) pyrt_scheme \<Rightarrow> 'f json \<Rightarrow> error + (string \<times> 'f resource) list"
where
  "oci_resource_entries rt resource =
     (case getitem resource ''type'' of Inl e \<Rightarrow> Inl e | Inr resource_type \<Rightarrow>
      case getitem resource ''instances'' of Inl e \<Rightarrow> Inl e | Inr insts \<Rightarrow>
      case py_iter insts of Inl e \<Rightarrow> Inl e | Inr instances \<Rightarrow>
        collect (\<lambda>instance. one_entry (oci_instance_entry rt resource resource_type instance))
          instances)"

definition oci_state_entries ::
  "('f, 'x) pyrt_scheme \<Rightarrow> 'f json \<Rightarrow> error + (string \<times> 'f resource) list"
where
  "oci_state_entries rt state_data =
     (case getitem state_data ''resources'' of Inl e \<Rightarrow> Inl e | Inr rs \<Rightarrow>
      case py_iter rs of Inl e \<Rightarrow> Inl e | Inr xs \<Rightarrow> collect (oci_resource_entries rt) xs)"

text \<open>Storing a list of entries into a table, one after the other.\<close>

fun store_all :: "(string \<times> 'v) list \<Rightarrow> (string \<times> 'v) list \<Rightarrow> (string \<times> 'v) list" where
  "store_all [] resources = resources"
| "store_all (entry # rest) resources =
     store_all rest (dict_set resources (fst entry) (snd entry))"

subsection \<open>The instances of a state\<close>

text \<open>
  The resources of a state and the instances of a resource, as the loops visit them. A
  value that the loop cannot subscript or iterate has none.
\<close>

definition state_resources :: "'f json \<Rightarrow> 'f json list" where
  "state_resources state_data =
     (case getitem state_data ''resources'' of Inl e \<Rightarrow> [] | Inr rs \<Rightarrow>
      case py_iter rs of Inl e \<Rightarrow> [] | Inr xs \<Rightarrow> xs)"

definition resource_instances :: "'f json \<Rightarrow> 'f json list" where
  "resource_instances resource =
     (case getitem resource ''instances'' of Inl e \<Rightarrow> [] | Inr insts \<Rightarrow>
      case py_iter insts of Inl e \<Rightarrow> [] | Inr instances \<Rightarrow> instances)"

text \<open>
  A minimal well-formed state: a dict whose \<^verbatim>\<open>resources\<close> is a list of dicts that carry
  \<^verbatim>\<open>type\<close>, \<^verbatim>\<open>name\<close> and a list \<^verbatim>\<open>instances\<close> of dicts, each with a dict \<^verbatim>\<open>attributes\<close>.
\<close>

definition wf_instance :: "'f json \<Rightarrow> bool" where
  "wf_instance instance =
     (case getitem instance ''attributes'' of Inr (JDict kvs) \<Rightarrow> True | _ \<Rightarrow> False)"

definition wf_resource :: "'f json \<Rightarrow> bool" where
  "wf_resource resource =
     ((case getitem resource ''type'' of Inr t \<Rightarrow> True | _ \<Rightarrow> False) \<and>
      (case getitem resource ''name'' of Inr n \<Rightarrow> True | _ \<Rightarrow> False) \<and>
      (case getitem resource ''instances'' of
         Inr (JList instances) \<Rightarrow> list_all wf_instance instances
       | _ \<Rightarrow> False))"

definition wf_state :: "'f json \<Rightarrow> bool" where
  "wf_state state_data =
     (case getitem state_data ''resources'' of
        Inr (JList xs) \<Rightarrow> list_all wf_resource xs
      | _ \<Rightarrow> False)"

text \<open>No instance of the state has a \<^verbatim>\<open>display_name\<close> among its attributes.\<close>

definition has_display_name :: "'f json \<Rightarrow> bool" where
  "has_display_name instance =
     (case getitem instance ''attributes'' of
        Inr (JDict kvs) \<Rightarrow> map_of kvs ''display_name'' \<noteq> None
      | _ \<Rightarrow> False)"

definition no_display_name :: "'f json \<Rightarrow> bool" where
  "no_display_name state_data =
     list_all (\<lambda>resource. list_all (\<lambda>instance. \<not> has_display_name instance)
                 (resource_instances resource))
       (state_resources state_data)"

text \<open>
  What the loops guarantee for a table entry: its key is made from its own type and name,
  its type is the type of a resource of the state and its attributes are the attributes
  object of an instance of that resource.
\<close>

definition entry_from :: "('f, 'x) pyrt_scheme \<Rightarrow> 'f json \<Rightarrow> string \<times> 'f resource \<Rightarrow> bool" where
  "entry_from rt st e =
     (fst e = resource_id_of rt (rtype (snd e)) (rname (snd e)) \<and>
      (\<exists>resource\<in>set (state_resources st). \<exists>instance\<in>set (resource_instances resource).
         getitem resource ''type'' = Inr (rtype (snd e)) \<and>
         getitem instance ''attributes'' = Inr (JDict (attributes (snd e)))))"

section \<open>Python comparisons\<close>

text \<open>
  \<^verbatim>\<open>==\<close> on decoded values. A \<^verbatim>\<open>bool\<close> is the int 0 or 1; numbers compare by value (a
  float through the runtime); strings, \<^verbatim>\<open>None\<close>, lists and dicts compare with their own
  kind only: lists element by element, dicts as mappings (the same keys with equal
  values, in any order).
\<close>

fun num_of :: "'f json \<Rightarrow> (int + 'f) option" where
  "num_of (JBool b) = Some (Inl (if b then 1 else 0))"
| "num_of (JInt i) = Some (Inl i)"
| "num_of (JFloat x) = Some (Inr x)"
| "num_of v = None"

definition num_eq :: "('f, 'x) pyrt_scheme \<Rightarrow> int + 'f \<Rightarrow> int + 'f \<Rightarrow> bool" where
  "num_eq rt a b =
     (case a of
        Inl i \<Rightarrow> (case b of Inl j \<Rightarrow> i = j | Inr y \<Rightarrow> feq_int rt y i)
      | Inr x \<Rightarrow> (case b of Inl j \<Rightarrow> feq_int rt x j | Inr y \<Rightarrow> feq rt x y))"

function py_eq :: "('f, 'x) pyrt_scheme \<Rightarrow> 'f json \<Rightarrow> 'f json \<Rightarrow> bool"
  and py_eq_list :: "('f, 'x) pyrt_scheme \<Rightarrow> 'f json list \<Rightarrow> 'f json list \<Rightarrow> bool"
  and py_eq_items ::
    "('f, 'x) pyrt_scheme \<Rightarrow> (string \<times> 'f json) list \<Rightarrow> (string \<times> 'f json) list \<Rightarrow> bool"
where
  "py_eq rt JNull b = (case b of JNull \<Rightarrow> True | _ \<Rightarrow> False)"
| "py_eq rt (JStr s) b = (case b of JStr t \<Rightarrow> s = t | _ \<Rightarrow> False)"
| "py_eq rt (JList xs) b = (case b of JList ys \<Rightarrow> py_eq_list rt xs ys | _ \<Rightarrow> False)"
| "py_eq rt (JDict kvs) b =
     (case b of JDict kvs' \<Rightarrow> length kvs = length kvs' \<and> py_eq_items rt kvs kvs' | _ \<Rightarrow> False)"
| "py_eq rt (JBool x) b =
     (case num_of b of Some n \<Rightarrow> num_eq rt (Inl (if x then 1 else 0)) n | None \<Rightarrow> False)"
| "py_eq rt (JInt i) b = (case num_of b of Some n \<Rightarrow> num_eq rt (Inl i) n | None \<Rightarrow> False)"
| "py_eq rt (JFloat x) b = (case num_of b of Some n \<Rightarrow> num_eq rt (Inr x) n | None \<Rightarrow> False)"
| "py_eq_list rt [] ys = (case ys of [] \<Rightarrow> True | _ \<Rightarrow> False)"
| "py_eq_list rt (x # xs) ys =
     (case ys of [] \<Rightarrow> False | y # ys' \<Rightarrow> py_eq rt x y \<and> py_eq_list rt xs ys')"
| "py_eq_items rt [] kvs' = True"
| "py_eq_items rt (kv # kvs) kvs' =
     (case map_of kvs' (fst kv) of
        None \<Rightarrow> False
      | Some w \<Rightarrow> py_eq rt (snd kv) w \<and> py_eq_items rt kvs kvs')"
  by pat_completeness auto
termination
  by (relation "measure (\<lambda>x. case x of
          Inl (rt, a, b) \<Rightarrow> size a
        | Inr (Inl (rt, xs, ys)) \<Rightarrow> size_list size xs
        | Inr (Inr (rt, kvs, kvs')) \<Rightarrow> size_list (size_prod (\<lambda>k. 0) size) kvs)")
     auto

text \<open>The truth value of a decoded value, as \<^verbatim>\<open>if v:\<close> takes it.\<close>

definition py_truthy :: "('f, 'x) pyrt_scheme \<Rightarrow> 'f json \<Rightarrow> bool" where
  "py_truthy rt v =
     (case v of
        JNull \<Rightarrow> False
      | JBool b \<Rightarrow> b
      | JInt i \<Rightarrow> i \<noteq> 0
      | JFloat x \<Rightarrow> ftruth rt x
      | JStr s \<Rightarrow> s \<noteq> []
      | JList xs \<Rightarrow> xs \<noteq> []
      | JDict kvs \<Rightarrow> kvs \<noteq> [])"

text \<open>
  \<^verbatim>\<open>a in c\<close>. In a string only a string can be looked for (\<^verbatim>\<open>TypeError\<close> otherwise); a
  list is searched with \<^verbatim>\<open>==\<close>; a dict is asked for a key, which must be hashable (a list
  or dict is not), and its keys are strings; any other value is not a container.
\<close>

definition py_in :: "('f, 'x) pyrt_scheme \<Rightarrow> 'f json \<Rightarrow> 'f json \<Rightarrow> error + bool" where
  "py_in rt a c =
     (case c of
        JStr h \<Rightarrow> (case a of JStr n \<Rightarrow> Inr (str_in n h) | _ \<Rightarrow> Inl TypeError)
      | JList xs \<Rightarrow> Inr (list_ex (\<lambda>x. py_eq rt x a) xs)
      | JDict kvs \<Rightarrow>
          (case a of
             JList ys \<Rightarrow> Inl TypeError
           | JDict ys \<Rightarrow> Inl TypeError
           | JStr k \<Rightarrow> Inr (map_of kvs k \<noteq> None)
           | _ \<Rightarrow> Inr False)
      | _ \<Rightarrow> Inl TypeError)"

text \<open>\<^verbatim>\<open>v.split('/')[-1]\<close>: only a string has \<^verbatim>\<open>split\<close>.\<close>

definition split_last :: "'f json \<Rightarrow> error + string" where
  "split_last v = (case v of JStr s \<Rightarrow> Inr (last_segment s) | _ \<Rightarrow> Inl AttributeError)"

section \<open>Drawing the diagram: \<^verbatim>\<open>generate_diagram\<close>\<close>

text \<open>
  A \<^verbatim>\<open>for\<close> loop over a list that updates a state and stops at the first exception.
\<close>

fun for_each :: "('a \<Rightarrow> 's \<Rightarrow> error + 's) \<Rightarrow> 'a list \<Rightarrow> 's \<Rightarrow> error + 's" where
  "for_each body [] s = Inr s"
| "for_each body (x # xs) s =
     (case body x s of Inl e \<Rightarrow> Inl e | Inr s' \<Rightarrow> for_each body xs s')"

text \<open>
  The dict \<^verbatim>\<open>connections\<close> maps a resource id to a set of resource ids. A set is kept as
  the list of its elements in the order they were added; Python iterates a set in an
  order of its own, and nothing below depends on the order.
\<close>

type_synonym connections = "(string \<times> string list) list"

definition set_add :: "string list \<Rightarrow> string \<Rightarrow> string list" where
  "set_add xs x = (if x \<in> set xs then xs else xs @ [x])"

text \<open>\<^verbatim>\<open>connections[k].add(x)\<close>: the subscript raises \<^verbatim>\<open>KeyError\<close> when \<open>k\<close> is no key.\<close>

definition conn_add :: "connections \<Rightarrow> string \<Rightarrow> string \<Rightarrow> error + connections" where
  "conn_add connections k x =
     (case map_of connections k of
        None \<Rightarrow> Inl (KeyError k)
      | Some xs \<Rightarrow> Inr (dict_set connections k (set_add xs x)))"

text \<open>\<open>x\<close> is in \<^verbatim>\<open>connections[k]\<close>.\<close>

definition connected :: "connections \<Rightarrow> string \<Rightarrow> string \<Rightarrow> bool" where
  "connected connections k x =
     (case map_of connections k of None \<Rightarrow> False | Some xs \<Rightarrow> x \<in> set xs)"

text \<open>
  \<open>extends c c'\<close>: the connections \<open>c'\<close> have the keys of \<open>c\<close> and every connection of
  \<open>c\<close>.
\<close>

definition extends :: "connections \<Rightarrow> connections \<Rightarrow> bool" where
  "extends c c' =
     (fst ` set c' = fst ` set c \<and> (\<forall>k x. connected c k x \<longrightarrow> connected c' k x))"

text \<open>
  What the scripts ask of the diagram library: \<open>diagram_enter\<close> is the construction of
  \<^verbatim>\<open>Diagram(...)\<close> and the entry of the \<^verbatim>\<open>with\<close> block for an output name, \<open>node_init\<close> the
  construction \<^verbatim>\<open>icon_class(label)\<close> of a node, \<open>diagram_render\<close> the end of the block,
  where the library lays the nodes and edges out and writes the image. Each of them gives
  the exception it raises, if any. An exception raised inside the block leaves the
  \<^verbatim>\<open>with\<close> statement.
\<close>

record 'f drawing =
  drawn_nodes :: "(string \<times> icon \<times> 'f json) list"
  drawn_edges :: "(string \<times> string) list"

record 'f diagrams =
  diagram_enter :: "string option \<Rightarrow> error option"
  node_init :: "icon \<Rightarrow> 'f json \<Rightarrow> error option"
  diagram_render :: "string option \<Rightarrow> 'f drawing \<Rightarrow> error option"

text \<open>
  The loop \<^verbatim>\<open># Create all nodes\<close>, the same in both scripts but for the icon table:
  \<^verbatim>\<open>icon_class = map_resource_to_icon(resource['type'])\<close>, then
  \<^verbatim>\<open>nodes[resource_id] = icon_class(resource['name'])\<close>.
\<close>

definition create_node ::
  "('f json \<Rightarrow> error + icon) \<Rightarrow> ('f, 'y) diagrams_scheme \<Rightarrow> string \<times> 'f resource \<Rightarrow>
   (string \<times> icon \<times> 'f json) list \<Rightarrow> error + (string \<times> icon \<times> 'f json) list"
where
  "create_node map_resource_to_icon lib entry nodes =
     (case map_resource_to_icon (rtype (snd entry)) of
        Inl e \<Rightarrow> Inl e
      | Inr icon_class \<Rightarrow>
          (case node_init lib icon_class (rname (snd entry)) of
             Some e \<Rightarrow> Inl e
           | None \<Rightarrow> Inr (dict_set nodes (fst entry) (icon_class, rname (snd entry)))))"

definition create_nodes ::
  "('f json \<Rightarrow> error + icon) \<Rightarrow> ('f, 'y) diagrams_scheme \<Rightarrow> 'f table \<Rightarrow>
   error + (string \<times> icon \<times> 'f json) list"
where
  "create_nodes map_resource_to_icon lib resources =
     for_each (create_node map_resource_to_icon lib) resources []"

text \<open>
  The loop \<^verbatim>\<open># Draw connections\<close>, the same text in both scripts: the pairs
  \<open>(source_id, target_id)\<close> for which \<^verbatim>\<open>nodes[source_id] >> nodes[target_id]\<close> is
  evaluated.
\<close>

definition draw_connections ::
  "(string \<times> 'n) list \<Rightarrow> connections \<Rightarrow> (string \<times> string) list"
where
  "draw_connections nodes connections =
     concat (map (\<lambda>(source_id, target_ids).
                    map (\<lambda>target_id. (source_id, target_id))
                      (filter (\<lambda>target_id. map_of nodes source_id \<noteq> None \<and>
                                            map_of nodes target_id \<noteq> None \<and>
                                            source_id \<noteq> target_id)
                         target_ids))
               connections)"

subsection \<open>gcp.py: the connections\<close>

text \<open>Lines 100 to 102: the inner loop of the common attribute connections.\<close>

definition gcp_common_body ::
  "('f, 'x) pyrt_scheme \<Rightarrow> string \<Rightarrow> 'f json \<Rightarrow> string \<times> 'f resource \<Rightarrow> connections \<Rightarrow>
   error + connections"
where
  "gcp_common_body rt resource_id v other connections =
     (case py_in rt (rname (snd other)) v of
        Inl e \<Rightarrow> Inl e
      | Inr found \<Rightarrow>
          if found \<and> fst other \<noteq> resource_id
          then conn_add connections resource_id (fst other)
          else Inr connections)"

text \<open>Lines 98 to 102: \<^verbatim>\<open>for attr, value in resource['attributes'].items()\<close>.\<close>

definition gcp_common ::
  "('f, 'x) pyrt_scheme \<Rightarrow> 'f table \<Rightarrow> string \<Rightarrow> string \<times> 'f json \<Rightarrow> connections \<Rightarrow>
   error + connections"
where
  "gcp_common rt resources resource_id attr connections =
     (case snd attr of
        JStr s \<Rightarrow> for_each (gcp_common_body rt resource_id (JStr s)) resources connections
      | _ \<Rightarrow> Inr connections)"

text \<open>Lines 109 to 114: the loop of a \<^verbatim>\<open>google_compute_instance\<close>.\<close>

definition gcp_instance_body ::
  "('f, 'x) pyrt_scheme \<Rightarrow> string \<Rightarrow> string \<Rightarrow> string \<Rightarrow> string \<times> 'f resource \<Rightarrow>
   connections \<Rightarrow> error + connections"
where
  "gcp_instance_body rt resource_id subnet_id network_id other connections =
     (if fst other \<noteq> resource_id then
        (case (if py_eq rt (rtype (snd other)) (JStr ''google_compute_subnetwork'') \<and>
                  py_eq rt (rname (snd other)) (JStr subnet_id)
               then (case conn_add connections resource_id (fst other) of
                       Inl e \<Rightarrow> Inl e
                     | Inr c \<Rightarrow> conn_add c (fst other) resource_id)
               else Inr connections) of
           Inl e \<Rightarrow> Inl e
         | Inr c \<Rightarrow>
             if py_eq rt (rtype (snd other)) (JStr ''google_compute_network'') \<and>
                py_eq rt (rname (snd other)) (JStr network_id)
             then conn_add c resource_id (fst other)
             else Inr c)
      else Inr connections)"

text \<open>Lines 119 to 123: the loop of a \<^verbatim>\<open>google_compute_subnetwork\<close>.\<close>

definition gcp_subnetwork_body ::
  "('f, 'x) pyrt_scheme \<Rightarrow> string \<Rightarrow> 'f resource \<Rightarrow> string \<Rightarrow> string \<times> 'f resource \<Rightarrow>
   connections \<Rightarrow> error + connections"
where
  "gcp_subnetwork_body rt resource_id resource network_id other connections =
     (if fst other \<noteq> resource_id then
        (case (if py_eq rt (rtype (snd other)) (JStr ''google_compute_network'') \<and>
                  py_eq rt (rname (snd other)) (JStr network_id)
               then conn_add connections resource_id (fst other)
               else Inr connections) of
           Inl e \<Rightarrow> Inl e
         | Inr c \<Rightarrow>
             if py_eq rt (rtype (snd other)) (JStr ''google_compute_instance'')
             then (case py_in rt (rname resource)
                          (dict_get (attributes (snd other)) ''subnetwork'' (JStr [])) of
                     Inl e \<Rightarrow> Inl e
                   | Inr found \<Rightarrow> if found then conn_add c resource_id (fst other) else Inr c)
             else Inr c)
      else Inr connections)"

text \<open>Lines 128 to 132: the loop of a \<^verbatim>\<open>google_compute_firewall\<close>.\<close>

definition gcp_firewall_body ::
  "('f, 'x) pyrt_scheme \<Rightarrow> string \<Rightarrow> string \<Rightarrow> string \<times> 'f resource \<Rightarrow>
   connections \<Rightarrow> error + connections"
where
  "gcp_firewall_body rt resource_id network_id other connections =
     (if fst other \<noteq> resource_id then
        (case (if py_eq rt (rtype (snd other)) (JStr ''google_compute_network'') \<and>
                  py_eq rt (rname (snd other)) (JStr network_id)
               then conn_add connections resource_id (fst other)
               else Inr connections) of
           Inl e \<Rightarrow> Inl e
         | Inr c \<Rightarrow>
             if py_eq rt (rtype (snd other)) (JStr ''google_compute_instance'')
             then conn_add c resource_id (fst other)
             else Inr c)
      else Inr connections)"

text \<open>Lines 137 to 139 (\<^verbatim>\<open>google_compute_router\<close>) and 144 to 146
  (\<^verbatim>\<open>google_compute_router_nat\<close>): one test on the other resource's type and name.\<close>

definition gcp_named_body ::
  "('f, 'x) pyrt_scheme \<Rightarrow> string \<Rightarrow> string \<Rightarrow> 'f json \<Rightarrow> string \<times> 'f resource \<Rightarrow>
   connections \<Rightarrow> error + connections"
where
  "gcp_named_body rt resource_id other_type other_name other connections =
     (if fst other \<noteq> resource_id then
        (if py_eq rt (rtype (snd other)) (JStr other_type) \<and>
            py_eq rt (rname (snd other)) other_name
         then conn_add connections resource_id (fst other)
         else Inr connections)
      else Inr connections)"

text \<open>
  Lines 105 to 146: the \<^verbatim>\<open>if\<close>/\<^verbatim>\<open>elif\<close> chain on the resource's type. In the first branch
  \<^verbatim>\<open>subnet_id\<close> is computed before \<^verbatim>\<open>network_id\<close>.
\<close>

definition gcp_specific ::
  "('f, 'x) pyrt_scheme \<Rightarrow> 'f table \<Rightarrow> string \<Rightarrow> 'f resource \<Rightarrow> connections \<Rightarrow>
   error + connections"
where
  "gcp_specific rt resources resource_id resource connections =
     (if py_eq rt (rtype resource) (JStr ''google_compute_instance'') then
        (case split_last (dict_get (attributes resource) ''subnetwork'' (JStr [])) of
           Inl e \<Rightarrow> Inl e
         | Inr subnet_id \<Rightarrow>
        (case split_last (dict_get (attributes resource) ''network'' (JStr [])) of
           Inl e \<Rightarrow> Inl e
         | Inr network_id \<Rightarrow>
             for_each (gcp_instance_body rt resource_id subnet_id network_id)
               resources connections))
      else if py_eq rt (rtype resource) (JStr ''google_compute_subnetwork'') then
        (case split_last (dict_get (attributes resource) ''network'' (JStr [])) of
           Inl e \<Rightarrow> Inl e
         | Inr network_id \<Rightarrow>
             for_each (gcp_subnetwork_body rt resource_id resource network_id)
               resources connections)
      else if py_eq rt (rtype resource) (JStr ''google_compute_firewall'') then
        (case split_last (dict_get (attributes resource) ''network'' (JStr [])) of
           Inl e \<Rightarrow> Inl e
         | Inr network_id \<Rightarrow>
             for_each (gcp_firewall_body rt resource_id network_id) resources connections)
      else if py_eq rt (rtype resource) (JStr ''google_compute_router'') then
        (case split_last (dict_get (attributes resource) ''network'' (JStr [])) of
           Inl e \<Rightarrow> Inl e
         | Inr network_id \<Rightarrow>
             for_each (gcp_named_body rt resource_id ''google_compute_network'' (JStr network_id))
               resources connections)
      else if py_eq rt (rtype resource) (JStr ''google_compute_router_nat'') then
        for_each (gcp_named_body rt resource_id ''google_compute_router''
                    (dict_get (attributes resource) ''router'' (JStr [])))
          resources connections
      else Inr connections)"

text \<open>
  Lines 94 to 146, the body of \<^verbatim>\<open>for resource_id, resource in resources.items()\<close>: the
  resource's own set is created here, at its turn.
\<close>

definition gcp_connect_resource ::
  "('f, 'x) pyrt_scheme \<Rightarrow> 'f table \<Rightarrow> string \<times> 'f resource \<Rightarrow> connections \<Rightarrow>
   error + connections"
where
  "gcp_connect_resource rt resources entry connections =
     (case for_each (gcp_common rt resources (fst entry)) (attributes (snd entry))
             (dict_set connections (fst entry) []) of
        Inl e \<Rightarrow> Inl e
      | Inr c \<Rightarrow> gcp_specific rt resources (fst entry) (snd entry) c)"

definition gcp_create_connections ::
  "('f, 'x) pyrt_scheme \<Rightarrow> 'f table \<Rightarrow> error + connections"
where
  "gcp_create_connections rt resources =
     for_each (gcp_connect_resource rt resources) resources []"

text \<open>gcp.py, \<^verbatim>\<open>generate_diagram\<close>: the exception it raises, if any.\<close>

definition gcp_generate_diagram ::
  "('f, 'x) pyrt_scheme \<Rightarrow> ('f, 'y) diagrams_scheme \<Rightarrow> 'f table \<Rightarrow> string option \<Rightarrow>
   error option"
where
  "gcp_generate_diagram rt lib resources output_file =
     (case diagram_enter lib output_file of
        Some e \<Rightarrow> Some e
      | None \<Rightarrow>
     (case create_nodes gcp_map_resource_to_icon lib resources of
        Inl e \<Rightarrow> Some e
      | Inr nodes \<Rightarrow>
     (case gcp_create_connections rt resources of
        Inl e \<Rightarrow> Some e
      | Inr connections \<Rightarrow>
          diagram_render lib output_file
            \<lparr>drawn_nodes = nodes, drawn_edges = draw_connections nodes connections\<rparr>)))"

subsection \<open>oci.py: the connections\<close>

text \<open>
  \<^verbatim>\<open>connections[resource_id].add(other_id)\<close> followed by
  \<^verbatim>\<open>connections[other_id].add(resource_id)\<close>.
\<close>

definition oci_link :: "connections \<Rightarrow> string \<Rightarrow> string \<Rightarrow> error + connections" where
  "oci_link connections resource_id other_id =
     (case conn_add connections resource_id other_id of
        Inl e \<Rightarrow> Inl e
      | Inr c \<Rightarrow> conn_add c other_id resource_id)"

text \<open>
  The loop that oci.py writes six times (lines 82 to 85, 96 to 99, 104 to 107, 112 to
  115, 126 to 129, 134 to 137): link every resource of a given type whose \<^verbatim>\<open>id\<close>
  attribute equals a given value. The keys of \<^verbatim>\<open>resources\<close> are visited with their own
  entries.
\<close>

definition oci_id_body ::
  "('f, 'x) pyrt_scheme \<Rightarrow> string \<Rightarrow> string \<Rightarrow> 'f json \<Rightarrow> string \<times> 'f resource \<Rightarrow>
   connections \<Rightarrow> error + connections"
where
  "oci_id_body rt resource_id other_type v other connections =
     (if py_eq rt (rtype (snd other)) (JStr other_type) \<and>
         py_eq rt (dict_get1 (attributes (snd other)) ''id'') v
      then oci_link connections resource_id (fst other)
      else Inr connections)"

text \<open>\<^verbatim>\<open>x = attrs.get(key)\<close>, \<^verbatim>\<open>if x:\<close> and the loop above.\<close>

definition oci_connect_by_id ::
  "('f, 'x) pyrt_scheme \<Rightarrow> 'f table \<Rightarrow> string \<Rightarrow> (string \<times> 'f json) list \<Rightarrow> string \<Rightarrow> string \<Rightarrow>
   connections \<Rightarrow> error + connections"
where
  "oci_connect_by_id rt resources resource_id attrs key other_type connections =
     (if py_truthy rt (dict_get1 attrs key)
      then for_each (oci_id_body rt resource_id other_type (dict_get1 attrs key))
             resources connections
      else Inr connections)"

text \<open>Lines 88 to 91 and 118 to 121: link every resource of a given type.\<close>

definition oci_type_body ::
  "('f, 'x) pyrt_scheme \<Rightarrow> string \<Rightarrow> string \<Rightarrow> string \<times> 'f resource \<Rightarrow>
   connections \<Rightarrow> error + connections"
where
  "oci_type_body rt resource_id other_type other connections =
     (if py_eq rt (rtype (snd other)) (JStr other_type)
      then oci_link connections resource_id (fst other)
      else Inr connections)"

text \<open>Lines 79 to 129: the \<^verbatim>\<open>if\<close>/\<^verbatim>\<open>elif\<close> chain on the resource's type.\<close>

definition oci_specific ::
  "('f, 'x) pyrt_scheme \<Rightarrow> 'f table \<Rightarrow> string \<Rightarrow> 'f resource \<Rightarrow> connections \<Rightarrow>
   error + connections"
where
  "oci_specific rt resources resource_id resource connections =
     (if py_eq rt (rtype resource) (JStr ''oci_core_instance'') then
        (case oci_connect_by_id rt resources resource_id (attributes resource)
                ''subnet_id'' ''oci_core_subnet'' connections of
           Inl e \<Rightarrow> Inl e
         | Inr c \<Rightarrow>
             for_each (oci_type_body rt resource_id ''oci_core_network_security_group'')
               resources c)
      else if py_eq rt (rtype resource) (JStr ''oci_core_subnet'') then
        oci_connect_by_id rt resources resource_id (attributes resource)
          ''vcn_id'' ''oci_core_vcn'' connections
      else if list_ex (\<lambda>t. py_eq rt (JStr t) (rtype resource))
                [''oci_core_security_list'', ''oci_core_route_table'', ''oci_core_nat_gateway'',
                 ''oci_core_internet_gateway'', ''oci_core_service_gateway''] then
        oci_connect_by_id rt resources resource_id (attributes resource)
          ''vcn_id'' ''oci_core_vcn'' connections
      else if py_eq rt (rtype resource) (JStr ''oci_core_network_security_group'') then
        (case oci_connect_by_id rt resources resource_id (attributes resource)
                ''vcn_id'' ''oci_core_vcn'' connections of
           Inl e \<Rightarrow> Inl e
         | Inr c \<Rightarrow>
             for_each (oci_type_body rt resource_id ''oci_core_instance'') resources c)
      else if py_eq rt (rtype resource)
                (JStr ''oci_core_network_security_group_security_rule'') then
        oci_connect_by_id rt resources resource_id (attributes resource)
          ''network_security_group_id'' ''oci_core_network_security_group'' connections
      else Inr connections)"

text \<open>Lines 76 to 137, the body of \<^verbatim>\<open>for resource_id, resource in resources.items()\<close>.\<close>

definition oci_connect_resource ::
  "('f, 'x) pyrt_scheme \<Rightarrow> 'f table \<Rightarrow> string \<times> 'f resource \<Rightarrow> connections \<Rightarrow>
   error + connections"
where
  "oci_connect_resource rt resources entry connections =
     (case oci_specific rt resources (fst entry) (snd entry) connections of
        Inl e \<Rightarrow> Inl e
      | Inr c \<Rightarrow>
          oci_connect_by_id rt resources (fst entry) (attributes (snd entry))
            ''compartment_id'' ''oci_identity_compartment'' c)"

text \<open>Line 68, \<^verbatim>\<open>connections = {resource_id: set() for resource_id in resources}\<close>, and the
  loop \<^verbatim>\<open># Create connections\<close>.\<close>

definition oci_create_connections ::
  "('f, 'x) pyrt_scheme \<Rightarrow> 'f table \<Rightarrow> error + connections"
where
  "oci_create_connections rt resources =
     for_each (oci_connect_resource rt resources) resources
       (map (\<lambda>entry. (fst entry, [])) resources)"

text \<open>oci.py, \<^verbatim>\<open>generate_diagram\<close>: the exception it raises, if any.\<close>

definition oci_generate_diagram ::
  "('f, 'x) pyrt_scheme \<Rightarrow> ('f, 'y) diagrams_scheme \<Rightarrow> 'f table \<Rightarrow> string option \<Rightarrow>
   error option"
where
  "oci_generate_diagram rt lib resources output_file =
     (case diagram_enter lib output_file of
        Some e \<Rightarrow> Some e
      | None \<Rightarrow>
     (case create_nodes oci_map_resource_to_icon lib resources of
        Inl e \<Rightarrow> Some e
      | Inr nodes \<Rightarrow>
     (case oci_create_connections rt resources of
        Inl e \<Rightarrow> Some e
      | Inr connections \<Rightarrow>
          diagram_render lib output_file
            \<lparr>drawn_nodes = nodes, drawn_edges = draw_connections nodes connections\<rparr>)))"

section \<open>The command line and \<^verbatim>\<open>main\<close>\<close>

text \<open>
  An argument as \<^verbatim>\<open>parser.add_argument\<close> declares it: its option string, whether it is
  required, and its default (\<^verbatim>\<open>None\<close> when none is given).
\<close>

record argument =
  arg_flag :: string
  arg_required :: bool
  arg_default :: "string option"

text \<open>
  The parser of each script: \<^verbatim>\<open>ArgumentParser(description=...)\<close>, which keeps the built-in
  \<^verbatim>\<open>-h\<close>/\<^verbatim>\<open>--help\<close>, and the two \<^verbatim>\<open>add_argument\<close> calls.
\<close>

record parser =
  add_help :: bool
  arguments :: "argument list"

definition gcp_parser :: parser where
  "gcp_parser =
     \<lparr>add_help = True,
      arguments =
        [\<lparr>arg_flag = ''--state'', arg_required = True, arg_default = None\<rparr>,
         \<lparr>arg_flag = ''--output'', arg_required = False,
          arg_default = Some ''infrastructure_diagram''\<rparr>]\<rparr>"

definition oci_parser :: parser where
  "oci_parser =
     \<lparr>add_help = True,
      arguments =
        [\<lparr>arg_flag = ''--state'', arg_required = True, arg_default = None\<rparr>,
         \<lparr>arg_flag = ''--output'', arg_required = False,
          arg_default = Some ''oci_infrastructure_diagram''\<rparr>]\<rparr>"

text \<open>
  The command line as argparse reads it, one item per thing it recognises: an option
  string with its value (\<open>Opt\<close>, in whatever spelling argparse accepts for the option),
  an option string with no value after it (\<open>Bare\<close>), a request for help (\<open>Help\<close>), and
  any other word (\<open>Stray\<close>).
\<close>

datatype cli_item = Opt string string | Bare string | Help | Stray string

text \<open>How \<^verbatim>\<open>parse_args\<close> ends the process: after printing the help (status 0) or after
  printing the usage and an error (status 2).\<close>

datatype cli_exit = HelpExit | ErrorExit

type_synonym namespace = "(string \<times> string option) list"

text \<open>
  The scan of the items from left to right. A declared option stores its value, and a
  later occurrence replaces an earlier one; a declared option without its value is an
  error at once; a request for help prints the help and exits at once; words that are not
  recognised are collected and reported after the scan. \<open>seen\<close> are the options that
  occurred, \<open>extras\<close> tells whether an unrecognised word occurred.
\<close>

fun scan_items ::
  "parser \<Rightarrow> cli_item list \<Rightarrow> namespace \<Rightarrow> string list \<Rightarrow> bool \<Rightarrow>
   cli_exit + (namespace \<times> string list \<times> bool)"
where
  "scan_items p [] ns seen extras = Inr (ns, seen, extras)"
| "scan_items p (Opt f v # rest) ns seen extras =
     (if f \<in> set (map arg_flag (arguments p))
      then scan_items p rest (dict_set ns f (Some v)) (f # seen) extras
      else scan_items p rest ns seen True)"
| "scan_items p (Bare f # rest) ns seen extras =
     (if f \<in> set (map arg_flag (arguments p))
      then Inl ErrorExit
      else scan_items p rest ns seen True)"
| "scan_items p (Help # rest) ns seen extras =
     (if add_help p then Inl HelpExit else scan_items p rest ns seen True)"
| "scan_items p (Stray w # rest) ns seen extras = scan_items p rest ns seen True"

text \<open>
  \<^verbatim>\<open>parser.parse_args()\<close>: the namespace starts with the defaults; after the scan a
  required option that did not occur is an error, and so is an unrecognised word.
\<close>

definition parse_args :: "parser \<Rightarrow> cli_item list \<Rightarrow> cli_exit + namespace" where
  "parse_args p argv =
     (case scan_items p argv (map (\<lambda>a. (arg_flag a, arg_default a)) (arguments p)) [] False of
        Inl x \<Rightarrow> Inl x
      | Inr (ns, seen, extras) \<Rightarrow>
          if list_ex (\<lambda>a. arg_required a \<and> arg_flag a \<notin> set seen) (arguments p)
          then Inl ErrorExit
          else if extras then Inl ErrorExit
          else Inr ns)"

text \<open>\<^verbatim>\<open>args.state\<close> and \<^verbatim>\<open>args.output\<close>: a string, or \<^verbatim>\<open>None\<close>.\<close>

definition ns_value :: "namespace \<Rightarrow> string \<Rightarrow> string option" where
  "ns_value ns f = (case map_of ns f of None \<Rightarrow> None | Some v \<Rightarrow> v)"

text \<open>What a run prints, and the status it exits with.\<close>

datatype printed =
    Stdout string
  | Stderr string
  | Traceback error
  | HelpText
  | UsageError

record run =
  exit_status :: int
  prints :: "printed list"

text \<open>\<^verbatim>\<open>{args.output}\<close> in the f-string of the last message.\<close>

definition format_name :: "string option \<Rightarrow> string" where
  "format_name n = (case n of None \<Rightarrow> ''None'' | Some s \<Rightarrow> s)"

text \<open>
  The handler \<^verbatim>\<open>except Exception as e\<close>, the same in both scripts: the message on
  \<^verbatim>\<open>stderr\<close>, the traceback, \<^verbatim>\<open>sys.exit(1)\<close>.
\<close>

definition on_exception :: "('f, 'x) pyrt_scheme \<Rightarrow> error \<Rightarrow> run" where
  "on_exception rt e =
     \<lparr>exit_status = 1,
      prints = [Stderr (''An error occurred: '' @ exc_str rt e), Traceback e]\<rparr>"

definition parse_exit :: "cli_exit \<Rightarrow> run" where
  "parse_exit x =
     (case x of
        HelpExit \<Rightarrow> \<lparr>exit_status = 0, prints = [HelpText]\<rparr>
      | ErrorExit \<Rightarrow> \<lparr>exit_status = 2, prints = [UsageError]\<rparr>)"

definition success :: "string option \<Rightarrow> run" where
  "success out =
     \<lparr>exit_status = 0,
      prints = [Stdout (''Infrastructure diagram generated successfully! Saved as '' @
                        format_name out @ ''.png'')]\<rparr>"

text \<open>gcp.py, \<^verbatim>\<open>main\<close>.\<close>

definition gcp_main ::
  "('f, 'x) pyrt_scheme \<Rightarrow> (string option \<Rightarrow> error + 'f json) \<Rightarrow> ('f, 'y) diagrams_scheme \<Rightarrow>
   cli_item list \<Rightarrow> run"
where
  "gcp_main rt load lib argv =
     (case parse_args gcp_parser argv of
        Inl x \<Rightarrow> parse_exit x
      | Inr args \<Rightarrow>
          (case gcp_parse_terraform_state rt load (ns_value args ''--state'') of
             Inl e \<Rightarrow> on_exception rt e
           | Inr resources \<Rightarrow>
               (case gcp_generate_diagram rt lib resources (ns_value args ''--output'') of
                  Some e \<Rightarrow> on_exception rt e
                | None \<Rightarrow> success (ns_value args ''--output''))))"

text \<open>oci.py, \<^verbatim>\<open>main\<close>.\<close>

definition oci_main ::
  "('f, 'x) pyrt_scheme \<Rightarrow> (string option \<Rightarrow> error + 'f json) \<Rightarrow> ('f, 'y) diagrams_scheme \<Rightarrow>
   cli_item list \<Rightarrow> run"
where
  "oci_main rt load lib argv =
     (case parse_args oci_parser argv of
        Inl x \<Rightarrow> parse_exit x
      | Inr args \<Rightarrow>
          (case oci_parse_terraform_state rt load (ns_value args ''--state'') of
             Inl e \<Rightarrow> on_exception rt e
           | Inr resources \<Rightarrow>
               (case oci_generate_diagram rt lib resources (ns_value args ''--output'') of
                  Some e \<Rightarrow> on_exception rt e
                | None \<Rightarrow> success (ns_value args ''--output''))))"

text \<open>
  A value that can be a dict key: a list or a dict cannot. A diagram library that raises
  nothing, whatever it is asked.
\<close>

definition hashable :: "'f json \<Rightarrow> bool" where
  "hashable v = (case v of JList xs \<Rightarrow> False | JDict kvs \<Rightarrow> False | _ \<Rightarrow> True)"

definition never_raises :: "('f, 'y) diagrams_scheme \<Rightarrow> bool" where
  "never_raises lib \<longleftrightarrow>
     (\<forall>out. diagram_enter lib out = None) \<and>
     (\<forall>icon_class label. node_init lib icon_class label = None) \<and>
     (\<forall>out d. diagram_render lib out d = None)"

section \<open>Concrete inputs\<close>

text \<open>
  A runtime to run the scripts on concrete states. The states below hold no float, so
  the type of floats is \<open>unit\<close>; only \<^verbatim>\<open>None\<close>, \<^verbatim>\<open>True\<close> and \<^verbatim>\<open>False\<close> get their Python
  text, and the states below only format strings. An exception's message is spelled out
  where its argument fixes it.
\<close>

definition plain_rt :: "unit pyrt" where
  "plain_rt =
     \<lparr>str_of = (\<lambda>v. case v of JNull \<Rightarrow> ''None'' | JBool b \<Rightarrow> (if b then ''True'' else ''False'')
                       | _ \<Rightarrow> []),
      feq = (\<lambda>a b. True), feq_int = (\<lambda>a i. False), ftruth = (\<lambda>a. True),
      exc_str = (\<lambda>e. case e of KeyError k \<Rightarrow> [CHR 0x27] @ k @ [CHR 0x27]
                        | NameError n \<Rightarrow> ''name '' @ [CHR 0x27] @ n @ [CHR 0x27] @ '' is not defined''
                        | OtherError m \<Rightarrow> m
                        | _ \<Rightarrow> [])\<rparr>"

text \<open>
  Concrete states, written as Terraform writes them: an instance with its attributes, a
  resource with its type, name and instances, a state with a version and its resources.
\<close>

definition mk_instance :: "(string \<times> 'f json) list \<Rightarrow> 'f json" where
  "mk_instance attrs = JDict [(''attributes'', JDict attrs)]"

definition mk_resource :: "string \<Rightarrow> string \<Rightarrow> 'f json list \<Rightarrow> 'f json" where
  "mk_resource t n instances =
     JDict [(''type'', JStr t), (''name'', JStr n), (''instances'', JList instances)]"

definition mk_state :: "'f json list \<Rightarrow> 'f json" where
  "mk_state rs = JDict [(''version'', JInt 4), (''resources'', JList rs)]"

text \<open>
  A subnetwork, an instance in it and a firewall, and the table both scripts read from
  this state.
\<close>

definition gcp_small_state :: "unit json" where
  "gcp_small_state = mk_state
     [mk_resource ''google_compute_subnetwork'' ''sub''
        [mk_instance [(''name'', JStr ''subnet-a''), (''network'', JStr ''projects/p/global/networks/vpc'')]],
      mk_resource ''google_compute_instance'' ''vm''
        [mk_instance [(''name'', JStr ''vm1''),
                      (''subnetwork'', JStr ''projects/p/regions/r/subnetworks/subnet-a'')]],
      mk_resource ''google_compute_firewall'' ''fw''
        [mk_instance [(''name'', JStr ''fw1'')]]]"

definition gcp_small_table :: "unit table" where
  "gcp_small_table =
     [(''google_compute_subnetwork.subnet-a'',
         \<lparr>rtype = JStr ''google_compute_subnetwork'', rname = JStr ''subnet-a'',
          attributes = [(''name'', JStr ''subnet-a''), (''network'', JStr ''projects/p/global/networks/vpc'')]\<rparr>),
      (''google_compute_instance.vm1'',
         \<lparr>rtype = JStr ''google_compute_instance'', rname = JStr ''vm1'',
          attributes = [(''name'', JStr ''vm1''),
                        (''subnetwork'', JStr ''projects/p/regions/r/subnetworks/subnet-a'')]\<rparr>),
      (''google_compute_firewall.fw1'',
         \<lparr>rtype = JStr ''google_compute_firewall'', rname = JStr ''fw1'',
          attributes = [(''name'', JStr ''fw1'')]\<rparr>)]"

text \<open>
  One resource with two instances whose attributes have no name (a resource with
  \<^verbatim>\<open>count = 2\<close>), and the two entries its instances produce.
\<close>

definition counted_state :: "unit json" where
  "counted_state = mk_state
     [mk_resource ''google_compute_disk'' ''data''
        [mk_instance [(''size'', JInt 10)], mk_instance [(''size'', JInt 20)]]]"

definition counted_entries :: "(string \<times> unit resource) list" where
  "counted_entries =
     [(''google_compute_disk.data'',
         \<lparr>rtype = JStr ''google_compute_disk'', rname = JStr ''data'', attributes = [(''size'', JInt 10)]\<rparr>),
      (''google_compute_disk.data'',
         \<lparr>rtype = JStr ''google_compute_disk'', rname = JStr ''data'', attributes = [(''size'', JInt 20)]\<rparr>)]"

text \<open>
  A diagram library that never raises, and a file system that holds one state file.
\<close>

definition quiet_lib :: "unit diagrams" where
  "quiet_lib =
     \<lparr>diagram_enter = (\<lambda>out. None), node_init = (\<lambda>icon_class label. None),
      diagram_render = (\<lambda>out d. None)\<rparr>"

definition one_file :: "string \<Rightarrow> 'f json \<Rightarrow> string option \<Rightarrow> error + 'f json" where
  "one_file path state_data p =
     (if p = Some path then Inr state_data else Inl (OtherError ''No such file or directory''))"

text \<open>
  A minimal well-formed state with one resource of type
  \<^verbatim>\<open>google_service_networking_connection\<close>.
\<close>

definition networking_state :: "unit json" where
  "networking_state = mk_state
     [mk_resource ''google_service_networking_connection'' ''peering''
        [mk_instance [(''service'', JStr ''servicenetworking.googleapis.com'')]]]"

text \<open>
  Connections with a self-loop and with an id that is no node, and the nodes of the small
  table.
\<close>

definition looped_connections :: connections where
  "looped_connections =
     [(''google_compute_instance.vm1'',
         [''google_compute_instance.vm1'', ''google_compute_subnetwork.subnet-a'', ''ghost'']),
      (''ghost'', [''google_compute_instance.vm1''])]"

definition small_nodes :: "(string \<times> icon \<times> unit json) list" where
  "small_nodes =
     [(''google_compute_subnetwork.subnet-a'', Subnet, JStr ''subnet-a''),
      (''google_compute_instance.vm1'', ComputeEngine, JStr ''vm1''),
      (''google_compute_firewall.fw1'', FirewallRules, JStr ''fw1'')]"

text \<open>
  The connections gcp.py infers on the small table, and a state with the same instance
  and subnetwork in the order Terraform writes them, the instance first, with its table.
\<close>

definition small_connections :: connections where
  "small_connections =
     [(''google_compute_subnetwork.subnet-a'', [''google_compute_instance.vm1'']),
      (''google_compute_instance.vm1'', [''google_compute_subnetwork.subnet-a'']),
      (''google_compute_firewall.fw1'', [''google_compute_instance.vm1''])]"

definition instance_first_state :: "unit json" where
  "instance_first_state = mk_state
     [mk_resource ''google_compute_instance'' ''vm''
        [mk_instance [(''name'', JStr ''vm1''),
                      (''subnetwork'', JStr ''projects/p/regions/r/subnetworks/subnet-a'')]],
      mk_resource ''google_compute_subnetwork'' ''sub''
        [mk_instance [(''name'', JStr ''subnet-a'')]]]"

definition instance_first_table :: "unit table" where
  "instance_first_table =
     [(''google_compute_instance.vm1'',
         \<lparr>rtype = JStr ''google_compute_instance'', rname = JStr ''vm1'',
          attributes = [(''name'', JStr ''vm1''),
                        (''subnetwork'', JStr ''projects/p/regions/r/subnetworks/subnet-a'')]\<rparr>),
      (''google_compute_subnetwork.subnet-a'',
         \<lparr>rtype = JStr ''google_compute_subnetwork'', rname = JStr ''subnet-a'',
          attributes = [(''name'', JStr ''subnet-a'')]\<rparr>)]"

text \<open>
  A state with an instance whose \<^verbatim>\<open>subnetwork\<close> attribute ends in \<^verbatim>\<open>subnet-a-2\<close> and a
  subnetwork named \<^verbatim>\<open>subnet-a\<close>, its table, and the connections gcp.py infers for them.
\<close>

definition lookalike_state :: "unit json" where
  "lookalike_state = mk_state
     [mk_resource ''google_compute_instance'' ''vm''
        [mk_instance [(''name'', JStr ''vm1''),
                      (''subnetwork'', JStr ''projects/p/regions/r/subnetworks/subnet-a-2'')]],
      mk_resource ''google_compute_subnetwork'' ''sub''
        [mk_instance [(''name'', JStr ''subnet-a'')]]]"

definition lookalike_table :: "unit table" where
  "lookalike_table =
     [(''google_compute_instance.vm1'',
         \<lparr>rtype = JStr ''google_compute_instance'', rname = JStr ''vm1'',
          attributes = [(''name'', JStr ''vm1''),
                        (''subnetwork'', JStr ''projects/p/regions/r/subnetworks/subnet-a-2'')]\<rparr>),
      (''google_compute_subnetwork.subnet-a'',
         \<lparr>rtype = JStr ''google_compute_subnetwork'', rname = JStr ''subnet-a'',
          attributes = [(''name'', JStr ''subnet-a'')]\<rparr>)]"

definition lookalike_connections :: connections where
  "lookalike_connections =
     [(''google_compute_instance.vm1'', [''google_compute_subnetwork.subnet-a'']),
      (''google_compute_subnetwork.subnet-a'', [''google_compute_instance.vm1''])]"

text \<open>
  A state with an OCI instance and a network security group that share no attribute
  value, and its table.
\<close>

definition oci_small_state :: "unit json" where
  "oci_small_state = mk_state
     [mk_resource ''oci_core_instance'' ''vm''
        [mk_instance [(''display_name'', JStr ''web'')]],
      mk_resource ''oci_core_network_security_group'' ''nsg''
        [mk_instance [(''display_name'', JStr ''guard'')]]]"

definition oci_small_table :: "unit table" where
  "oci_small_table =
     [(''oci_core_instance.web'',
         \<lparr>rtype = JStr ''oci_core_instance'', rname = JStr ''web'',
          attributes = [(''display_name'', JStr ''web'')]\<rparr>),
      (''oci_core_network_security_group.guard'',
         \<lparr>rtype = JStr ''oci_core_network_security_group'', rname = JStr ''guard'',
          attributes = [(''display_name'', JStr ''guard'')]\<rparr>)]"

section \<open>Properties of the icon tables\<close>

lemma oci_map_resource_to_icon_total:
  "\<exists>c. oci_map_resource_to_icon (JStr t) = Inr c"
  by (simp add: oci_map_resource_to_icon_def split: option.split)

lemma oci_map_resource_to_icon_table:
  "map_of oci_mappings t = Some c \<Longrightarrow> oci_map_resource_to_icon (JStr t) = Inr c"
  by (simp add: oci_map_resource_to_icon_def)

lemma gcp_map_resource_to_icon_table:
  "map_of gcp_mappings t = Some c \<Longrightarrow> gcp_map_resource_to_icon (JStr t) = Inr c"
  by (simp add: gcp_map_resource_to_icon_def)

text \<open>The unbound name is the only way gcp.py's function fails on a string.\<close>

lemma gcp_map_resource_to_icon_cases:
  "gcp_map_resource_to_icon (JStr t) = Inl (NameError ''Switch'') \<longleftrightarrow>
     map_of gcp_mappings t = None \<and> \<not> str_in ''compute'' t \<and> str_in ''network'' t"
  "gcp_map_resource_to_icon (JStr t) \<noteq> Inl (NameError ''Switch'') \<Longrightarrow>
     \<exists>c. gcp_map_resource_to_icon (JStr t) = Inr c"
  by (auto simp: gcp_map_resource_to_icon_def split: option.splits if_splits)

text \<open>
  C1 (fails in gcp.py). The claim says that \<^verbatim>\<open>map_resource_to_icon\<close> returns an icon class
  for every resource type string. In gcp.py the type
  \<^verbatim>\<open>google_service_networking_connection\<close> is not in the table, does not contain
  \<^verbatim>\<open>compute\<close> and contains \<^verbatim>\<open>network\<close>: the function reaches \<^verbatim>\<open>return Switch\<close>, a name the
  module never imports, and raises \<^verbatim>\<open>NameError\<close> instead of returning a class.
\<close>

theorem gcp_map_resource_to_icon_switch_unbound:
  "gcp_map_resource_to_icon (JStr ''google_service_networking_connection'')
     = Inl (NameError ''Switch'')"
  by (simp add: gcp_map_resource_to_icon_def gcp_mappings_def)

section \<open>Properties of the string operations\<close>

text \<open>\<open>str_in\<close> is the substring test, and \<open>last_segment\<close> is the part after the last
  \<^verbatim>\<open>/\<close>.\<close>

lemma startswith_iff: "startswith n h \<longleftrightarrow> (\<exists>r. h = n @ r)"
  by (induction n h rule: startswith.induct) auto

lemma str_in_iff: "str_in n h \<longleftrightarrow> (\<exists>p r. h = p @ n @ r)"
proof (induction h)
  case Nil
  then show ?case by auto
next
  case (Cons b h)
  show ?case
  proof
    assume "str_in n (b # h)"
    then consider "startswith n (b # h)" | "str_in n h" by auto
    then show "\<exists>p r. b # h = p @ n @ r"
    proof cases
      case 1
      then obtain r where "b # h = n @ r" by (auto simp: startswith_iff)
      then have "b # h = [] @ n @ r" by simp
      then show ?thesis by blast
    next
      case 2
      then obtain p r where "h = p @ n @ r" using Cons by blast
      then have "b # h = (b # p) @ n @ r" by simp
      then show ?thesis by blast
    qed
  next
    assume "\<exists>p r. b # h = p @ n @ r"
    then obtain p r where e: "b # h = p @ n @ r" by blast
    show "str_in n (b # h)"
    proof (cases p)
      case Nil
      then have "startswith n (b # h)" using e by (auto simp: startswith_iff)
      then show ?thesis by simp
    next
      case (Cons a p')
      then have "h = p' @ n @ r" using e by simp
      then have "str_in n h" using Cons.IH by blast
      then show ?thesis by simp
    qed
  qed
qed

lemma split_acc_nonempty: "split_acc sep cur s \<noteq> []"
  by (induction s arbitrary: cur) auto

lemma last_split_acc_no_sep:
  "sep \<notin> set cur \<Longrightarrow> sep \<notin> set (last (split_acc sep cur s))"
  by (induction s arbitrary: cur) (auto simp: split_acc_nonempty)

lemma last_split_acc_suffix:
  "\<exists>p. cur @ s = p @ last (split_acc sep cur s) \<and> (p = [] \<or> last p = sep)"
proof (induction s arbitrary: cur)
  case Nil
  show ?case by (rule exI [of _ "[]"]) simp
next
  case (Cons c s)
  show ?case
  proof (cases "c = sep")
    case True
    obtain p where p: "[] @ s = p @ last (split_acc sep [] s)" "p = [] \<or> last p = sep"
      using Cons [of "[]"] by blast
    have "cur @ c # s = (cur @ c # p) @ last (split_acc sep [] s)" using p(1) by simp
    moreover have "last (cur @ c # p) = sep" using p(2) True by auto
    ultimately have "cur @ c # s = (cur @ c # p) @ last (split_acc sep cur (c # s)) \<and>
        (cur @ c # p = [] \<or> last (cur @ c # p) = sep)"
      using True by (simp add: split_acc_nonempty)
    then show ?thesis by blast
  next
    case False
    obtain p where "(cur @ [c]) @ s = p @ last (split_acc sep (cur @ [c]) s)" "p = [] \<or> last p = sep"
      using Cons [of "cur @ [c]"] by blast
    then show ?thesis using False by auto
  qed
qed

lemma last_segment_spec:
  "CHR ''/'' \<notin> set (last_segment s) \<and>
   (\<exists>p. s = p @ last_segment s \<and> (p = [] \<or> last p = CHR ''/''))"
  using last_split_acc_no_sep [of "CHR ''/''" "[]" s] last_split_acc_suffix [of "[]" s "CHR ''/''"]
  by (simp add: last_segment_def split_def)

section \<open>Properties of \<^verbatim>\<open>parse_terraform_state\<close>\<close>

subsection \<open>Dict assignment\<close>

lemma set_dict_set: "set (dict_set ps k v) \<subseteq> insert (k, v) (set ps)"
  by (induction ps) auto

lemma keys_dict_set: "fst ` set (dict_set ps k v) = insert k (fst ` set ps)"
  by (induction ps) auto

lemma distinct_dict_set: "distinct (map fst ps) \<Longrightarrow> distinct (map fst (dict_set ps k v))"
  by (induction ps) (auto simp: keys_dict_set)

lemma map_of_dict_set: "map_of (dict_set ps k v) = (map_of ps)(k \<mapsto> v)"
  by (induction ps) auto

lemma length_dict_set:
  "length (dict_set ps k v) = (if k \<in> fst ` set ps then length ps else Suc (length ps))"
  by (induction ps) auto

lemma set_store_all: "set (store_all es T) \<subseteq> set es \<union> set T"
proof (induction es arbitrary: T)
  case Nil
  then show ?case by simp
next
  case (Cons e es)
  have "set (store_all es (dict_set T (fst e) (snd e))) \<subseteq> set es \<union> set (dict_set T (fst e) (snd e))"
    by (rule Cons.IH)
  also have "\<dots> \<subseteq> set es \<union> insert e (set T)"
    using set_dict_set [of T "fst e" "snd e"] by auto
  finally show ?case by auto
qed

lemma distinct_store_all:
  "distinct (map fst T) \<Longrightarrow> distinct (map fst (store_all es T))"
  by (induction es arbitrary: T) (simp_all add: distinct_dict_set)

lemma keys_store_all: "fst ` set (store_all es T) = fst ` set es \<union> fst ` set T"
  by (induction es arbitrary: T) (auto simp: keys_dict_set)

lemma store_all_append: "store_all (as @ bs) T = store_all bs (store_all as T)"
  by (induction as arbitrary: T) simp_all

lemma map_of_store_all_notin:
  "k \<notin> fst ` set es \<Longrightarrow> map_of (store_all es T) k = map_of T k"
  by (induction es arbitrary: T) (auto simp: map_of_dict_set)

lemma length_store_all_le: "length (store_all es T) \<le> length es + length T"
proof (induction es arbitrary: T)
  case Nil
  then show ?case by simp
next
  case (Cons e es)
  have "length (store_all es (dict_set T (fst e) (snd e))) \<le> length es + length (dict_set T (fst e) (snd e))"
    by (rule Cons.IH)
  then show ?case by (simp add: length_dict_set split: if_splits)
qed

lemma length_store_all:
  "distinct (map fst T) \<Longrightarrow> length (store_all es T) = card (fst ` set es \<union> fst ` set T)"
proof -
  assume d: "distinct (map fst T)"
  have "distinct (map fst (store_all es T))" using d by (rule distinct_store_all)
  then have "card (set (map fst (store_all es T))) = length (map fst (store_all es T))"
    by (rule distinct_card)
  then show ?thesis by (simp add: keys_store_all)
qed

subsection \<open>The loops store the entries of the state in order\<close>

lemma gcp_parse_instances_store:
  "gcp_parse_instances rt resource ty instances T =
     (case collect (\<lambda>instance. one_entry (gcp_instance_entry rt resource ty instance)) instances of
        Inl e \<Rightarrow> Inl e | Inr es \<Rightarrow> Inr (store_all es T))"
  by (induction instances arbitrary: T) (auto simp: one_entry_def split: sum.splits)

lemma gcp_parse_resources_store:
  "gcp_parse_resources rt xs T =
     (case collect (gcp_resource_entries rt) xs of
        Inl e \<Rightarrow> Inl e | Inr es \<Rightarrow> Inr (store_all es T))"
  by (induction xs arbitrary: T)
     (auto simp: gcp_resource_entries_def gcp_parse_instances_store store_all_append split: sum.splits)

lemma gcp_parse_state_store:
  "gcp_parse_state rt st =
     (case gcp_state_entries rt st of Inl e \<Rightarrow> Inl e | Inr es \<Rightarrow> Inr (store_all es []))"
  by (simp add: gcp_parse_state_def gcp_state_entries_def gcp_parse_resources_store split: sum.splits)

lemma oci_parse_instances_store:
  "oci_parse_instances rt resource ty instances T =
     (case collect (\<lambda>instance. one_entry (oci_instance_entry rt resource ty instance)) instances of
        Inl e \<Rightarrow> Inl e | Inr es \<Rightarrow> Inr (store_all es T))"
  by (induction instances arbitrary: T) (auto simp: one_entry_def split: sum.splits)

lemma oci_parse_resources_store:
  "oci_parse_resources rt xs T =
     (case collect (oci_resource_entries rt) xs of
        Inl e \<Rightarrow> Inl e | Inr es \<Rightarrow> Inr (store_all es T))"
  by (induction xs arbitrary: T)
     (auto simp: oci_resource_entries_def oci_parse_instances_store store_all_append split: sum.splits)

lemma oci_parse_state_store:
  "oci_parse_state rt st =
     (case oci_state_entries rt st of Inl e \<Rightarrow> Inl e | Inr es \<Rightarrow> Inr (store_all es []))"
  by (simp add: oci_parse_state_def oci_state_entries_def oci_parse_resources_store split: sum.splits)

subsection \<open>Where a table entry comes from\<close>

lemma collect_Inr_iff:
  "(\<exists>zs. collect f xs = Inr zs) \<longleftrightarrow> (\<forall>x\<in>set xs. \<exists>ys. f x = Inr ys)"
  by (induction xs) (auto split: sum.splits)

lemma collect_member:
  "collect f xs = Inr zs \<Longrightarrow> z \<in> set zs \<Longrightarrow> \<exists>x\<in>set xs. \<exists>ys. f x = Inr ys \<and> z \<in> set ys"
  by (induction xs arbitrary: zs) (auto split: sum.splits)

lemma one_entry_member:
  "one_entry x = Inr ys \<Longrightarrow> z \<in> set ys \<Longrightarrow> x = Inr z"
  by (auto simp: one_entry_def split: sum.splits)

lemma gcp_instance_entry_props:
  assumes "gcp_instance_entry rt resource ty instance = Inr (k, r)"
  shows "k = resource_id_of rt (rtype r) (rname r) \<and> rtype r = ty \<and>
         getitem instance ''attributes'' = Inr (JDict (attributes r))"
proof -
  obtain attrs where a: "getitem instance ''attributes'' = Inr attrs"
    using assms by (auto simp: gcp_instance_entry_def split: sum.splits)
  obtain kvs where k: "get_method attrs = Inr kvs"
    using assms a by (auto simp: gcp_instance_entry_def split: sum.splits)
  have d: "attrs = JDict kvs" using k by (cases attrs) auto
  show ?thesis
    using assms a k d by (auto simp: gcp_instance_entry_def Let_def split: sum.splits)
qed

lemma oci_instance_entry_props:
  assumes "oci_instance_entry rt resource ty instance = Inr (k, r)"
  shows "k = resource_id_of rt (rtype r) (rname r) \<and> rtype r = ty \<and>
         getitem instance ''attributes'' = Inr (JDict (attributes r))"
proof -
  obtain attrs where a: "getitem instance ''attributes'' = Inr attrs"
    using assms by (auto simp: oci_instance_entry_def split: sum.splits)
  obtain kvs where k: "get_method attrs = Inr kvs"
    using assms a by (auto simp: oci_instance_entry_def split: sum.splits)
  have d: "attrs = JDict kvs" using k by (cases attrs) auto
  show ?thesis
    using assms a k d by (auto simp: oci_instance_entry_def Let_def split: sum.splits)
qed

lemma gcp_resource_entries_member:
  assumes "gcp_resource_entries rt resource = Inr es" "e \<in> set es"
  shows "fst e = resource_id_of rt (rtype (snd e)) (rname (snd e)) \<and>
         (\<exists>instance\<in>set (resource_instances resource).
            getitem resource ''type'' = Inr (rtype (snd e)) \<and>
            getitem instance ''attributes'' = Inr (JDict (attributes (snd e))))"
proof -
  obtain ty insts instances where t: "getitem resource ''type'' = Inr ty"
    and i: "getitem resource ''instances'' = Inr insts"
    and it: "py_iter insts = Inr instances"
    and c: "collect (\<lambda>instance. one_entry (gcp_instance_entry rt resource ty instance)) instances = Inr es"
    using assms(1) by (auto simp: gcp_resource_entries_def split: sum.splits)
  obtain inst ys where m: "inst \<in> set instances"
    and o: "one_entry (gcp_instance_entry rt resource ty inst) = Inr ys" and y: "e \<in> set ys"
    using collect_member [OF c assms(2)] by blast
  have "gcp_instance_entry rt resource ty inst = Inr (fst e, snd e)"
    using one_entry_member [OF o y] by simp
  from gcp_instance_entry_props [OF this]
  have p: "fst e = resource_id_of rt (rtype (snd e)) (rname (snd e))" "rtype (snd e) = ty"
    "getitem inst ''attributes'' = Inr (JDict (attributes (snd e)))" by simp_all
  have "resource_instances resource = instances"
    using i it by (simp add: resource_instances_def)
  then show ?thesis using p m t by auto
qed

lemma oci_resource_entries_member:
  assumes "oci_resource_entries rt resource = Inr es" "e \<in> set es"
  shows "fst e = resource_id_of rt (rtype (snd e)) (rname (snd e)) \<and>
         (\<exists>instance\<in>set (resource_instances resource).
            getitem resource ''type'' = Inr (rtype (snd e)) \<and>
            getitem instance ''attributes'' = Inr (JDict (attributes (snd e))))"
proof -
  obtain ty insts instances where t: "getitem resource ''type'' = Inr ty"
    and i: "getitem resource ''instances'' = Inr insts"
    and it: "py_iter insts = Inr instances"
    and c: "collect (\<lambda>instance. one_entry (oci_instance_entry rt resource ty instance)) instances = Inr es"
    using assms(1) by (auto simp: oci_resource_entries_def split: sum.splits)
  obtain inst ys where m: "inst \<in> set instances"
    and o: "one_entry (oci_instance_entry rt resource ty inst) = Inr ys" and y: "e \<in> set ys"
    using collect_member [OF c assms(2)] by blast
  have "oci_instance_entry rt resource ty inst = Inr (fst e, snd e)"
    using one_entry_member [OF o y] by simp
  from oci_instance_entry_props [OF this]
  have p: "fst e = resource_id_of rt (rtype (snd e)) (rname (snd e))" "rtype (snd e) = ty"
    "getitem inst ''attributes'' = Inr (JDict (attributes (snd e)))" by simp_all
  have "resource_instances resource = instances"
    using i it by (simp add: resource_instances_def)
  then show ?thesis using p m t by auto
qed

lemma gcp_state_entries_member:
  assumes "gcp_state_entries rt st = Inr es" "e \<in> set es"
  shows "entry_from rt st e"
proof -
  obtain rs xs where r: "getitem st ''resources'' = Inr rs" and it: "py_iter rs = Inr xs"
    and c: "collect (gcp_resource_entries rt) xs = Inr es"
    using assms(1) by (auto simp: gcp_state_entries_def split: sum.splits)
  obtain resource ys where m: "resource \<in> set xs"
    and g: "gcp_resource_entries rt resource = Inr ys" and y: "e \<in> set ys"
    using collect_member [OF c assms(2)] by blast
  have "state_resources st = xs" using r it by (simp add: state_resources_def)
  then show ?thesis
    using gcp_resource_entries_member [OF g y] m unfolding entry_from_def by blast
qed

lemma oci_state_entries_member:
  assumes "oci_state_entries rt st = Inr es" "e \<in> set es"
  shows "entry_from rt st e"
proof -
  obtain rs xs where r: "getitem st ''resources'' = Inr rs" and it: "py_iter rs = Inr xs"
    and c: "collect (oci_resource_entries rt) xs = Inr es"
    using assms(1) by (auto simp: oci_state_entries_def split: sum.splits)
  obtain resource ys where m: "resource \<in> set xs"
    and g: "oci_resource_entries rt resource = Inr ys" and y: "e \<in> set ys"
    using collect_member [OF c assms(2)] by blast
  have "state_resources st = xs" using r it by (simp add: state_resources_def)
  then show ?thesis
    using oci_resource_entries_member [OF g y] m unfolding entry_from_def by blast
qed

lemma gcp_parse_state_entries:
  assumes "gcp_parse_state rt st = Inr T"
  shows "distinct (map fst T) \<and> (\<forall>e\<in>set T. entry_from rt st e)"
proof -
  obtain es where es: "gcp_state_entries rt st = Inr es" and T: "T = store_all es []"
    using assms by (auto simp: gcp_parse_state_store split: sum.splits)
  have "distinct (map fst T)" unfolding T by (rule distinct_store_all) simp
  moreover have "set T \<subseteq> set es" unfolding T using set_store_all [of es "[]"] by simp
  ultimately show ?thesis using gcp_state_entries_member [OF es] by blast
qed

lemma oci_parse_state_entries:
  assumes "oci_parse_state rt st = Inr T"
  shows "distinct (map fst T) \<and> (\<forall>e\<in>set T. entry_from rt st e)"
proof -
  obtain es where es: "oci_state_entries rt st = Inr es" and T: "T = store_all es []"
    using assms by (auto simp: oci_parse_state_store split: sum.splits)
  have "distinct (map fst T)" unfolding T by (rule distinct_store_all) simp
  moreover have "set T \<subseteq> set es" unfolding T using set_store_all [of es "[]"] by simp
  ultimately show ?thesis using oci_state_entries_member [OF es] by blast
qed

subsection \<open>A well-formed state is parsed\<close>

lemma wf_instance_gcp:
  assumes "wf_instance instance" "getitem resource ''name'' = Inr n"
  shows "\<exists>e. gcp_instance_entry rt resource ty instance = Inr e"
proof -
  obtain kvs where "getitem instance ''attributes'' = Inr (JDict kvs)"
    using assms(1) by (auto simp: wf_instance_def split: sum.splits json.splits)
  then show ?thesis using assms(2) by (simp add: gcp_instance_entry_def Let_def)
qed

lemma wf_instance_oci:
  assumes "wf_instance instance" "getitem resource ''name'' = Inr n"
  shows "\<exists>e. oci_instance_entry rt resource ty instance = Inr e"
proof -
  obtain kvs where "getitem instance ''attributes'' = Inr (JDict kvs)"
    using assms(1) by (auto simp: wf_instance_def split: sum.splits json.splits)
  then show ?thesis using assms(2) by (simp add: oci_instance_entry_def Let_def)
qed

lemma wf_resource_gcp:
  assumes "wf_resource resource"
  shows "\<exists>es. gcp_resource_entries rt resource = Inr es"
proof -
  obtain ty n instances where t: "getitem resource ''type'' = Inr ty"
    and n: "getitem resource ''name'' = Inr n"
    and i: "getitem resource ''instances'' = Inr (JList instances)"
    and w: "list_all wf_instance instances"
    using assms by (auto simp: wf_resource_def split: sum.splits json.splits)
  have "\<forall>instance\<in>set instances.
          \<exists>ys. one_entry (gcp_instance_entry rt resource ty instance) = Inr ys"
  proof
    fix x assume "x \<in> set instances"
    then have "wf_instance x" using w by (simp add: list_all_iff)
    from wf_instance_gcp [OF this n] obtain e where "gcp_instance_entry rt resource ty x = Inr e"
      by blast
    then show "\<exists>ys. one_entry (gcp_instance_entry rt resource ty x) = Inr ys"
      by (simp add: one_entry_def)
  qed
  then obtain es where
    "collect (\<lambda>instance. one_entry (gcp_instance_entry rt resource ty instance)) instances = Inr es"
    using collect_Inr_iff [of "\<lambda>instance. one_entry (gcp_instance_entry rt resource ty instance)" instances]
    by blast
  then show ?thesis using t i by (simp add: gcp_resource_entries_def)
qed

lemma wf_resource_oci:
  assumes "wf_resource resource"
  shows "\<exists>es. oci_resource_entries rt resource = Inr es"
proof -
  obtain ty n instances where t: "getitem resource ''type'' = Inr ty"
    and n: "getitem resource ''name'' = Inr n"
    and i: "getitem resource ''instances'' = Inr (JList instances)"
    and w: "list_all wf_instance instances"
    using assms by (auto simp: wf_resource_def split: sum.splits json.splits)
  have "\<forall>instance\<in>set instances.
          \<exists>ys. one_entry (oci_instance_entry rt resource ty instance) = Inr ys"
  proof
    fix x assume "x \<in> set instances"
    then have "wf_instance x" using w by (simp add: list_all_iff)
    from wf_instance_oci [OF this n] obtain e where "oci_instance_entry rt resource ty x = Inr e"
      by blast
    then show "\<exists>ys. one_entry (oci_instance_entry rt resource ty x) = Inr ys"
      by (simp add: one_entry_def)
  qed
  then obtain es where
    "collect (\<lambda>instance. one_entry (oci_instance_entry rt resource ty instance)) instances = Inr es"
    using collect_Inr_iff [of "\<lambda>instance. one_entry (oci_instance_entry rt resource ty instance)" instances]
    by blast
  then show ?thesis using t i by (simp add: oci_resource_entries_def)
qed

lemma wf_state_parses:
  assumes "wf_state st"
  shows "(\<exists>T. gcp_parse_state rt st = Inr T) \<and> (\<exists>T. oci_parse_state rt st = Inr T)"
proof -
  obtain xs where r: "getitem st ''resources'' = Inr (JList xs)" and w: "list_all wf_resource xs"
    using assms by (auto simp: wf_state_def split: sum.splits json.splits)
  have "\<exists>es. collect (gcp_resource_entries rt) xs = Inr es"
    using w wf_resource_gcp [of _ rt] collect_Inr_iff [of "gcp_resource_entries rt" xs]
    by (auto simp: list_all_iff)
  moreover have "\<exists>es. collect (oci_resource_entries rt) xs = Inr es"
    using w wf_resource_oci [of _ rt] collect_Inr_iff [of "oci_resource_entries rt" xs]
    by (auto simp: list_all_iff)
  ultimately show ?thesis
    using r by (auto simp: gcp_parse_state_store oci_parse_state_store
        gcp_state_entries_def oci_state_entries_def)
qed

text \<open>
  C2. For every decoded state, \<^verbatim>\<open>parse_terraform_state\<close> (in gcp.py and in oci.py) returns
  a table on every minimal well-formed state, and whenever it returns a table, the keys
  of the table are pairwise different, the key of each entry is the text
  \<^verbatim>\<open><type>.<name>\<close> made from the entry's own type and name fields, and the entry's type
  and attributes are the type of a resource of the state and the attributes object of one
  of that resource's instances.
\<close>

theorem parse_terraform_state_table:
  "(wf_state st \<longrightarrow>
      (\<exists>T. gcp_parse_state rt st = Inr T) \<and> (\<exists>T. oci_parse_state rt st = Inr T)) \<and>
   (\<forall>T. gcp_parse_state rt st = Inr T \<or> oci_parse_state rt st = Inr T \<longrightarrow>
      distinct (map fst T) \<and>
      (\<forall>e\<in>set T.
         fst e = py_format rt (rtype (snd e)) @ ''.'' @ py_format rt (rname (snd e)) \<and>
         (\<exists>resource\<in>set (state_resources st). \<exists>instance\<in>set (resource_instances resource).
            getitem resource ''type'' = Inr (rtype (snd e)) \<and>
            getitem instance ''attributes'' = Inr (JDict (attributes (snd e))))))"
  using wf_state_parses [of st rt] gcp_parse_state_entries [of rt st] oci_parse_state_entries [of rt st]
  unfolding entry_from_def resource_id_of_def by blast

subsection \<open>The two parsers agree when no instance has a display name\<close>

lemma oci_instance_entry_no_display_name:
  assumes "\<not> has_display_name inst"
  shows "oci_instance_entry rt resource ty inst = gcp_instance_entry rt resource ty inst"
proof (cases "getitem inst ''attributes''")
  case (Inl e)
  then show ?thesis by (simp add: oci_instance_entry_def gcp_instance_entry_def)
next
  case (Inr attrs)
  show ?thesis
  proof (cases "get_method attrs")
    case (Inl e)
    then show ?thesis using Inr by (simp add: oci_instance_entry_def gcp_instance_entry_def)
  next
    case (Inr kvs)
    then have d: "attrs = JDict kvs" by (cases attrs) auto
    have "map_of kvs ''display_name'' = None"
      using assms \<open>getitem inst ''attributes'' = Inr attrs\<close> d
      by (simp add: has_display_name_def)
    then have "dict_get kvs ''display_name'' x = x" for x
      by (simp add: dict_get_def)
    then show ?thesis
      using \<open>getitem inst ''attributes'' = Inr attrs\<close> Inr
      by (simp add: oci_instance_entry_def gcp_instance_entry_def Let_def split: sum.splits)
  qed
qed

lemma oci_parse_instances_no_display_name:
  "list_all (\<lambda>i. \<not> has_display_name i) instances \<Longrightarrow>
   oci_parse_instances rt resource ty instances T = gcp_parse_instances rt resource ty instances T"
  by (induction instances arbitrary: T)
     (simp_all add: oci_instance_entry_no_display_name split: sum.splits)

lemma oci_parse_resources_no_display_name:
  "list_all (\<lambda>resource. list_all (\<lambda>i. \<not> has_display_name i) (resource_instances resource)) xs \<Longrightarrow>
   oci_parse_resources rt xs T = gcp_parse_resources rt xs T"
proof (induction xs arbitrary: T)
  case Nil
  then show ?case by simp
next
  case (Cons resource xs)
  have tl: "oci_parse_resources rt xs T' = gcp_parse_resources rt xs T'" for T'
    using Cons by simp
  have hd: "list_all (\<lambda>i. \<not> has_display_name i) (resource_instances resource)"
    using Cons.prems by simp
  have "oci_parse_instances rt resource ty instances T = gcp_parse_instances rt resource ty instances T"
    if "getitem resource ''instances'' = Inr insts" "py_iter insts = Inr instances"
    for ty insts instances
    using hd that oci_parse_instances_no_display_name [of instances rt resource ty T]
    by (simp add: resource_instances_def)
  then show ?case by (simp add: tl split: sum.splits)
qed

text \<open>
  C4. On a state in which no instance has a \<^verbatim>\<open>display_name\<close> among its attributes, the
  \<^verbatim>\<open>parse_terraform_state\<close> of oci.py and the one of gcp.py give the same result: the same
  table, or the same exception.
\<close>

theorem parse_terraform_state_same_tables:
  assumes "no_display_name state_data"
  shows "oci_parse_state rt state_data = gcp_parse_state rt state_data"
proof -
  have "oci_parse_resources rt xs [] = gcp_parse_resources rt xs []"
    if "getitem state_data ''resources'' = Inr rs" "py_iter rs = Inr xs" for rs xs
    using assms that oci_parse_resources_no_display_name [of xs rt "[]"]
    by (simp add: no_display_name_def state_resources_def)
  then show ?thesis
    by (simp add: oci_parse_state_def gcp_parse_state_def split: sum.splits)
qed

subsection \<open>Two instances with one id\<close>

lemma map_of_store_all_last:
  assumes "j < length es" "\<forall>l. j < l \<and> l < length es \<longrightarrow> fst (es ! l) \<noteq> fst (es ! j)"
  shows "map_of (store_all es T) (fst (es ! j)) = Some (snd (es ! j))"
proof -
  let ?k = "fst (es ! j)"
  have split: "es = take j es @ [es ! j] @ drop (Suc j) es"
    using assms(1) by (simp add: id_take_nth_drop [symmetric])
  have notin: "?k \<notin> fst ` set (drop (Suc j) es)"
  proof
    assume "?k \<in> fst ` set (drop (Suc j) es)"
    then obtain e where e: "e \<in> set (drop (Suc j) es)" and k: "fst e = ?k" by auto
    from e obtain n where n: "n < length (drop (Suc j) es)" and en: "drop (Suc j) es ! n = e"
      by (auto simp: in_set_conv_nth)
    have "es ! (Suc j + n) = e" using n en by simp
    moreover have "j < Suc j + n" "Suc j + n < length es" using n by auto
    ultimately show False using assms(2) k by blast
  qed
  have "store_all es T = store_all (drop (Suc j) es)
          (dict_set (store_all (take j es) T) ?k (snd (es ! j)))"
    by (subst split) (simp add: store_all_append)
  then show ?thesis using notin by (simp add: map_of_store_all_notin map_of_dict_set)
qed

lemma length_store_all_collision:
  assumes "i < j" "j < length es" "fst (es ! i) = fst (es ! j)"
  shows "length (store_all es []) < length es"
proof -
  have "i < length es" "i \<noteq> j" using assms(1,2) by simp_all
  then have "\<exists>a<length es. \<exists>b<length es. a \<noteq> b \<and> fst (es ! a) = fst (es ! b)"
    using assms(2,3) by blast
  then have "\<not> distinct (map fst es)"
    by (simp add: distinct_conv_nth)
  then have "card (set (map fst es)) \<noteq> length (map fst es)"
    using card_distinct by blast
  moreover have "card (set (map fst es)) \<le> length (map fst es)" by (rule card_length)
  ultimately have "card (fst ` set es) < length es" by simp
  moreover have "length (store_all es []) = card (fst ` set es \<union> fst ` set ([] :: (string \<times> 'a) list))"
    by (rule length_store_all) simp
  ultimately show ?thesis by simp
qed

text \<open>
  C8. Let \<open>es\<close> be the entries that the instances of a state produce, in order, and let
  the instances at positions \<open>i < j\<close> have the same type and the same name, \<open>j\<close> being
  the last position with that id. Then parsing reports no error, the table holds the
  record of instance \<open>j\<close> under the id (the earlier record is overwritten), and the table
  has fewer entries than the state has instances. This holds in gcp.py and in oci.py.
\<close>

theorem parse_terraform_state_collision:
  assumes "i < j" "j < length es"
    and "rtype (snd (es ! i)) = rtype (snd (es ! j))"
    and "rname (snd (es ! i)) = rname (snd (es ! j))"
    and "\<forall>l. j < l \<and> l < length es \<longrightarrow> fst (es ! l) \<noteq> fst (es ! j)"
  shows "(gcp_state_entries rt state_data = Inr es \<longrightarrow>
            (\<exists>T. gcp_parse_state rt state_data = Inr T \<and>
                 map_of T (fst (es ! j)) = Some (snd (es ! j)) \<and> length T < length es)) \<and>
         (oci_state_entries rt state_data = Inr es \<longrightarrow>
            (\<exists>T. oci_parse_state rt state_data = Inr T \<and>
                 map_of T (fst (es ! j)) = Some (snd (es ! j)) \<and> length T < length es))"
proof -
  have same: "fst (es ! i) = fst (es ! j)"
    if "\<forall>e\<in>set es. entry_from rt state_data e"
  proof -
    have "entry_from rt state_data (es ! i)" "entry_from rt state_data (es ! j)"
      using that assms(1,2) by simp_all
    then show ?thesis using assms(3,4) by (simp add: entry_from_def)
  qed
  have T: "map_of (store_all es []) (fst (es ! j)) = Some (snd (es ! j))"
    using assms(2,5) by (rule map_of_store_all_last)
  have g: "length (store_all es []) < length es"
    if "\<forall>e\<in>set es. entry_from rt state_data e"
    using assms(1,2) same [OF that] by (rule length_store_all_collision)
  show ?thesis
    using T g gcp_state_entries_member [of rt state_data es] oci_state_entries_member [of rt state_data es]
    by (auto simp: gcp_parse_state_store oci_parse_state_store)
qed

subsection \<open>The concrete states\<close>

lemmas eval_parse =
  mk_state_def mk_resource_def mk_instance_def
  gcp_parse_state_def oci_parse_state_def gcp_instance_entry_def oci_instance_entry_def
  gcp_state_entries_def oci_state_entries_def gcp_resource_entries_def oci_resource_entries_def
  one_entry_def dict_get_def resource_id_of_def py_format_def Let_def

lemma gcp_small_state_parsed: "gcp_parse_state plain_rt gcp_small_state = Inr gcp_small_table"
  by (simp add: gcp_small_state_def gcp_small_table_def eval_parse)

lemma oci_small_state_parsed: "oci_parse_state plain_rt gcp_small_state = Inr gcp_small_table"
  by (simp add: gcp_small_state_def gcp_small_table_def eval_parse)

lemma gcp_small_state_wf: "wf_state gcp_small_state"
  by (simp add: gcp_small_state_def mk_state_def mk_resource_def mk_instance_def
      wf_state_def wf_resource_def wf_instance_def)

theorem parse_terraform_state_table_witness:
  "wf_state gcp_small_state \<and>
   gcp_parse_state plain_rt gcp_small_state = Inr gcp_small_table \<and>
   oci_parse_state plain_rt gcp_small_state = Inr gcp_small_table \<and>
   distinct (map fst gcp_small_table) \<and>
   list_all
     (\<lambda>e. fst e = py_format plain_rt (rtype (snd e)) @ ''.'' @ py_format plain_rt (rname (snd e)) \<and>
        (\<exists>resource\<in>set (state_resources gcp_small_state).
           \<exists>instance\<in>set (resource_instances resource).
             getitem resource ''type'' = Inr (rtype (snd e)) \<and>
             getitem instance ''attributes'' = Inr (JDict (attributes (snd e)))))
     gcp_small_table"
  unfolding list_all_iff
  using parse_terraform_state_table [of gcp_small_state plain_rt]
    gcp_small_state_wf gcp_small_state_parsed oci_small_state_parsed
  by blast

lemma gcp_small_state_no_display_name: "no_display_name gcp_small_state"
  by (simp add: gcp_small_state_def mk_state_def mk_resource_def mk_instance_def
      no_display_name_def has_display_name_def state_resources_def resource_instances_def)

theorem parse_terraform_state_same_tables_witness:
  "no_display_name gcp_small_state \<and>
   oci_parse_state plain_rt gcp_small_state = gcp_parse_state plain_rt gcp_small_state"
  using parse_terraform_state_same_tables [of gcp_small_state plain_rt]
    gcp_small_state_no_display_name
  by simp

lemma counted_state_entries:
  "gcp_state_entries plain_rt counted_state = Inr counted_entries"
  "oci_state_entries plain_rt counted_state = Inr counted_entries"
  by (simp_all add: counted_state_def counted_entries_def eval_parse)

theorem parse_terraform_state_collision_witness:
  "gcp_state_entries plain_rt counted_state = Inr counted_entries \<and>
   oci_state_entries plain_rt counted_state = Inr counted_entries \<and>
   length counted_entries = 2 \<and>
   (\<exists>T. gcp_parse_state plain_rt counted_state = Inr T \<and>
        map_of T ''google_compute_disk.data'' = Some (snd (counted_entries ! 1)) \<and> length T < 2) \<and>
   (\<exists>T. oci_parse_state plain_rt counted_state = Inr T \<and>
        map_of T ''google_compute_disk.data'' = Some (snd (counted_entries ! 1)) \<and> length T < 2)"
proof -
  have h: "(0::nat) < 1" "1 < length counted_entries"
    "rtype (snd (counted_entries ! 0)) = rtype (snd (counted_entries ! 1))"
    "rname (snd (counted_entries ! 0)) = rname (snd (counted_entries ! 1))"
    "\<forall>l. 1 < l \<and> l < length counted_entries \<longrightarrow> fst (counted_entries ! l) \<noteq> fst (counted_entries ! 1)"
    by (simp_all add: counted_entries_def)
  have k: "fst (counted_entries ! 1) = ''google_compute_disk.data''" "length counted_entries = 2"
    by (simp_all add: counted_entries_def)
  show ?thesis
    using parse_terraform_state_collision [OF h, of plain_rt counted_state] counted_state_entries k
    by simp
qed

section \<open>Properties of \<^verbatim>\<open>main\<close>\<close>

text \<open>
  C5. When \<^verbatim>\<open>parse_terraform_state\<close> or \<^verbatim>\<open>generate_diagram\<close> raises an exception \<open>e\<close>, whatever
  it is, \<^verbatim>\<open>main\<close> ends in its one handler: it prints \<^verbatim>\<open>An error occurred:\<close> with the
  message of \<open>e\<close> and the traceback, and exits with status 1. The outcome is the same
  function of \<open>e\<close> for every exception, in gcp.py and in oci.py.
\<close>

theorem main_catches_every_exception:
  "(parse_args gcp_parser argv = Inr args \<and>
      (gcp_parse_terraform_state rt load (ns_value args ''--state'') = Inl e \<or>
       (\<exists>resources. gcp_parse_terraform_state rt load (ns_value args ''--state'') = Inr resources \<and>
          gcp_generate_diagram rt lib resources (ns_value args ''--output'') = Some e))
      \<longrightarrow> gcp_main rt load lib argv = on_exception rt e) \<and>
   (parse_args oci_parser argv = Inr args \<and>
      (oci_parse_terraform_state rt load (ns_value args ''--state'') = Inl e \<or>
       (\<exists>resources. oci_parse_terraform_state rt load (ns_value args ''--state'') = Inr resources \<and>
          oci_generate_diagram rt lib resources (ns_value args ''--output'') = Some e))
      \<longrightarrow> oci_main rt load lib argv = on_exception rt e) \<and>
   exit_status (on_exception rt e) = 1 \<and>
   prints (on_exception rt e) = [Stderr (''An error occurred: '' @ exc_str rt e), Traceback e]"
  by (auto simp: gcp_main_def oci_main_def on_exception_def)

lemmas eval_cli =
  parse_args_def gcp_parser_def oci_parser_def ns_value_def

theorem main_catches_every_exception_witness:
  "parse_args gcp_parser [Opt ''--state'' ''missing.json''] =
     Inr [(''--state'', Some ''missing.json''), (''--output'', Some ''infrastructure_diagram'')] \<and>
   gcp_parse_terraform_state plain_rt (one_file ''state.json'' gcp_small_state) (Some ''missing.json'')
     = Inl (OtherError ''No such file or directory'') \<and>
   gcp_main plain_rt (one_file ''state.json'' gcp_small_state) quiet_lib [Opt ''--state'' ''missing.json'']
     = on_exception plain_rt (OtherError ''No such file or directory'')"
proof -
  have a: "parse_args gcp_parser [Opt ''--state'' ''missing.json''] =
     Inr [(''--state'', Some ''missing.json''), (''--output'', Some ''infrastructure_diagram'')]"
    by (simp add: eval_cli)
  have b: "gcp_parse_terraform_state plain_rt (one_file ''state.json'' gcp_small_state)
             (Some ''missing.json'') = Inl (OtherError ''No such file or directory'')"
    by (simp add: gcp_parse_terraform_state_def one_file_def)
  show ?thesis
    using main_catches_every_exception
      [of "[Opt ''--state'' ''missing.json'']"
          "[(''--state'', Some ''missing.json''), (''--output'', Some ''infrastructure_diagram'')]"
          plain_rt "one_file ''state.json'' gcp_small_state"
          "OtherError ''No such file or directory''" quiet_lib]
      a b
    by (simp add: ns_value_def)
qed

lemma networking_state_wf: "wf_state networking_state"
  by (simp add: networking_state_def mk_state_def mk_resource_def mk_instance_def
      wf_state_def wf_resource_def wf_instance_def)

text \<open>
  C6 (fails in gcp.py). The claim says that on every minimal well-formed state file the
  script exits with status 0. The state \<open>networking_state\<close> is minimal and well-formed,
  the diagram library raises nothing, and gcp.py still ends in its exception handler with
  status 1: the node loop calls \<^verbatim>\<open>map_resource_to_icon\<close>, which reaches the unbound name
  \<^verbatim>\<open>Switch\<close>.
\<close>

theorem gcp_main_fails_on_well_formed_state:
  "wf_state networking_state \<and>
   gcp_main plain_rt (one_file ''state.json'' networking_state) quiet_lib
     [Opt ''--state'' ''state.json'']
   = on_exception plain_rt (NameError ''Switch'')"
proof -
  have "gcp_main plain_rt (one_file ''state.json'' networking_state) quiet_lib
          [Opt ''--state'' ''state.json'']
        = on_exception plain_rt (NameError ''Switch'')"
    by (simp add: gcp_main_def eval_cli gcp_parse_terraform_state_def
        one_file_def networking_state_def eval_parse gcp_generate_diagram_def quiet_lib_def
        create_nodes_def create_node_def gcp_map_resource_to_icon_def gcp_mappings_def)
  then show ?thesis using networking_state_wf by simp
qed

subsection \<open>The command line\<close>

lemma scan_items_seen:
  "scan_items p argv ns seen extras = Inr (ns', seen', extras') \<Longrightarrow>
   set seen' \<subseteq> set seen \<union> {f. \<exists>v. Opt f v \<in> set argv}"
  by (induction p argv ns seen extras rule: scan_items.induct) (auto split: if_splits)

lemma scan_items_help:
  "scan_items p argv ns seen extras = Inl HelpExit \<Longrightarrow> Help \<in> set argv"
  by (induction p argv ns seen extras rule: scan_items.induct) (auto split: if_splits)

lemma scan_items_keeps:
  "scan_items p argv ns seen extras = Inr (ns', seen', extras') \<Longrightarrow>
   \<forall>v. Opt f v \<notin> set argv \<Longrightarrow> map_of ns' f = map_of ns f"
  by (induction p argv ns seen extras rule: scan_items.induct)
     (auto simp: map_of_dict_set split: if_splits)

lemma parse_args_without_state:
  assumes "\<forall>v. Opt ''--state'' v \<notin> set argv"
    and "p = gcp_parser \<or> p = oci_parser"
  shows "(Help \<in> set argv \<and> parse_args p argv = Inl HelpExit) \<or> parse_args p argv = Inl ErrorExit"
proof (cases "scan_items p argv (map (\<lambda>a. (arg_flag a, arg_default a)) (arguments p)) [] False")
  case (Inl x)
  then show ?thesis
    using scan_items_help [of p argv _ "[]" False] by (cases x) (auto simp: parse_args_def)
next
  case (Inr r)
  obtain ns seen extras where r: "r = (ns, seen, extras)" by (cases r) auto
  have "set seen \<subseteq> {f. \<exists>v. Opt f v \<in> set argv}"
    using scan_items_seen [OF Inr [unfolded r]] by simp
  then have "''--state'' \<notin> set seen" using assms(1) by auto
  then have "list_ex (\<lambda>a. arg_required a \<and> arg_flag a \<notin> set seen) (arguments p)"
    using assms(2) by (auto simp: gcp_parser_def oci_parser_def)
  then show ?thesis using Inr r by (simp add: parse_args_def)
qed

lemma parse_args_default_output:
  assumes "parse_args p argv = Inr args" "\<forall>v. Opt ''--output'' v \<notin> set argv"
  shows "map_of args ''--output'' =
         map_of (map (\<lambda>a. (arg_flag a, arg_default a)) (arguments p)) ''--output''"
proof -
  obtain seen extras where
    "scan_items p argv (map (\<lambda>a. (arg_flag a, arg_default a)) (arguments p)) [] False
       = Inr (args, seen, extras)"
    using assms(1) by (auto simp: parse_args_def split: sum.splits if_splits)
  from scan_items_keeps [OF this assms(2)] show ?thesis .
qed

text \<open>
  C7, as amended. Each script declares exactly two options, \<^verbatim>\<open>--state\<close> (required) and
  \<^verbatim>\<open>--output\<close> (optional). An invocation without \<^verbatim>\<open>--state\<close> never reaches the state file:
  it ends inside \<^verbatim>\<open>parse_args\<close>, with the help text and status 0 when help was asked for,
  and with a usage error and status 2 otherwise. When \<^verbatim>\<open>--output\<close> is not given, its value
  is \<^verbatim>\<open>infrastructure_diagram\<close> in gcp.py and \<^verbatim>\<open>oci_infrastructure_diagram\<close> in oci.py.
\<close>

theorem cli_surface:
  "map arg_flag (arguments gcp_parser) = [''--state'', ''--output''] \<and>
   map arg_flag (arguments oci_parser) = [''--state'', ''--output''] \<and>
   map arg_required (arguments gcp_parser) = [True, False] \<and>
   map arg_required (arguments oci_parser) = [True, False] \<and>
   exit_status (parse_exit HelpExit) = 0 \<and> exit_status (parse_exit ErrorExit) = 2 \<and>
   ((\<forall>v. Opt ''--state'' v \<notin> set argv) \<longrightarrow>
      ((Help \<in> set argv \<and> gcp_main rt load lib argv = parse_exit HelpExit) \<or>
       gcp_main rt load lib argv = parse_exit ErrorExit) \<and>
      ((Help \<in> set argv \<and> oci_main rt load lib argv = parse_exit HelpExit) \<or>
       oci_main rt load lib argv = parse_exit ErrorExit)) \<and>
   ((\<forall>v. Opt ''--output'' v \<notin> set argv) \<longrightarrow>
      (\<forall>args. parse_args gcp_parser argv = Inr args \<longrightarrow>
         ns_value args ''--output'' = Some ''infrastructure_diagram'') \<and>
      (\<forall>args. parse_args oci_parser argv = Inr args \<longrightarrow>
         ns_value args ''--output'' = Some ''oci_infrastructure_diagram''))"
proof -
  have flags: "map arg_flag (arguments gcp_parser) = [''--state'', ''--output'']"
    "map arg_flag (arguments oci_parser) = [''--state'', ''--output'']"
    "map arg_required (arguments gcp_parser) = [True, False]"
    "map arg_required (arguments oci_parser) = [True, False]"
    "exit_status (parse_exit HelpExit) = 0" "exit_status (parse_exit ErrorExit) = 2"
    by (simp_all add: gcp_parser_def oci_parser_def parse_exit_def)
  have state: "((Help \<in> set argv \<and> gcp_main rt load lib argv = parse_exit HelpExit) \<or>
       gcp_main rt load lib argv = parse_exit ErrorExit) \<and>
      ((Help \<in> set argv \<and> oci_main rt load lib argv = parse_exit HelpExit) \<or>
       oci_main rt load lib argv = parse_exit ErrorExit)"
    if "\<forall>v. Opt ''--state'' v \<notin> set argv"
    using parse_args_without_state [OF that, of gcp_parser]
      parse_args_without_state [OF that, of oci_parser]
    by (auto simp: gcp_main_def oci_main_def)
  have out: "ns_value args ''--output'' = Some ''infrastructure_diagram''"
    if "\<forall>v. Opt ''--output'' v \<notin> set argv" "parse_args gcp_parser argv = Inr args" for args
    using parse_args_default_output [OF that(2) that(1)]
    by (simp add: ns_value_def gcp_parser_def)
  have out': "ns_value args ''--output'' = Some ''oci_infrastructure_diagram''"
    if "\<forall>v. Opt ''--output'' v \<notin> set argv" "parse_args oci_parser argv = Inr args" for args
    using parse_args_default_output [OF that(2) that(1)]
    by (simp add: ns_value_def oci_parser_def)
  show ?thesis using flags state out out' by blast
qed

text \<open>
  C7 as stated fails: the parser keeps argparse's built-in \<^verbatim>\<open>-h\<close>/\<^verbatim>\<open>--help\<close>, a third
  option, and an invocation with it and without \<^verbatim>\<open>--state\<close> does not fail: it exits with
  status 0.
\<close>

theorem cli_surface_help_counterexample:
  "Opt ''--state'' ''state.json'' \<notin> set [Help] \<and>
   exit_status (gcp_main plain_rt (one_file ''state.json'' gcp_small_state) quiet_lib [Help]) = 0 \<and>
   exit_status (oci_main plain_rt (one_file ''state.json'' gcp_small_state) quiet_lib [Help]) = 0"
  by (simp add: gcp_main_def oci_main_def eval_cli parse_exit_def)

theorem cli_surface_witness:
  "gcp_main plain_rt (one_file ''state.json'' gcp_small_state) quiet_lib [Opt ''--output'' ''d'']
     = parse_exit ErrorExit \<and>
   oci_main plain_rt (one_file ''state.json'' gcp_small_state) quiet_lib [Opt ''--output'' ''d'']
     = parse_exit ErrorExit \<and>
   parse_args gcp_parser [Opt ''--state'' ''state.json''] =
     Inr [(''--state'', Some ''state.json''), (''--output'', Some ''infrastructure_diagram'')] \<and>
   ns_value [(''--state'', Some ''state.json''), (''--output'', Some ''infrastructure_diagram'')]
     ''--output'' = Some ''infrastructure_diagram''"
proof -
  have a: "\<forall>v. Opt ''--state'' v \<notin> set [Opt ''--output'' ''d'']" by simp
  have h: "Help \<notin> set [Opt ''--output'' ''d'']" by simp
  have b: "\<forall>v. Opt ''--output'' v \<notin> set [Opt ''--state'' ''state.json'']" by simp
  have c: "parse_args gcp_parser [Opt ''--state'' ''state.json''] =
     Inr [(''--state'', Some ''state.json''), (''--output'', Some ''infrastructure_diagram'')]"
    by (simp add: eval_cli)
  show ?thesis
    using cli_surface [of "[Opt ''--output'' ''d'']" plain_rt
        "one_file ''state.json'' gcp_small_state" quiet_lib] a h
      cli_surface [of "[Opt ''--state'' ''state.json'']" plain_rt
        "one_file ''state.json'' gcp_small_state" quiet_lib] b c
    by blast
qed

section \<open>Properties of \<^verbatim>\<open>generate_diagram\<close>\<close>

subsection \<open>The edges that are drawn\<close>

lemma draw_connections_member:
  "e \<in> set (draw_connections nodes connections) \<Longrightarrow>
   fst e \<noteq> snd e \<and> fst e \<in> fst ` set nodes \<and> snd e \<in> fst ` set nodes"
  by (auto simp: draw_connections_def map_of_eq_None_iff intro: rev_image_eqI)

lemma create_node_keys:
  assumes "create_node m lib entry nodes = Inr nodes'"
  shows "fst ` set nodes' = insert (fst entry) (fst ` set nodes)"
proof -
  obtain c where "nodes' = dict_set nodes (fst entry) (c, rname (snd entry))"
    using assms by (auto simp: create_node_def split: sum.splits option.splits)
  then show ?thesis by (simp only: keys_dict_set)
qed

lemma for_each_create_node_keys:
  "for_each (create_node m lib) resources nodes = Inr nodes' \<Longrightarrow>
   fst ` set nodes' = fst ` set resources \<union> fst ` set nodes"
proof (induction resources arbitrary: nodes)
  case Nil
  then show ?case by simp
next
  case (Cons entry resources)
  then obtain n1 where a: "create_node m lib entry nodes = Inr n1"
    and b: "for_each (create_node m lib) resources n1 = Inr nodes'"
    by (auto split: sum.splits)
  show ?case using Cons.IH [OF b] create_node_keys [OF a] by auto
qed

text \<open>
  C10. Whatever the connections hold, every pair \<open>(source, target)\<close> for which the loop
  \<^verbatim>\<open># Draw connections\<close> draws an edge has two different ids that are both keys of the
  node table; and the keys of the node table are the resource ids, in gcp.py and in
  oci.py.
\<close>

theorem drawn_edges_are_between_distinct_nodes:
  "(\<forall>e\<in>set (draw_connections nodes connections).
      fst e \<noteq> snd e \<and> fst e \<in> fst ` set nodes \<and> snd e \<in> fst ` set nodes) \<and>
   (create_nodes gcp_map_resource_to_icon lib resources = Inr nodes \<or>
    create_nodes oci_map_resource_to_icon lib resources = Inr nodes \<longrightarrow>
      fst ` set nodes = fst ` set resources)"
  using draw_connections_member [of _ nodes connections]
    for_each_create_node_keys [of gcp_map_resource_to_icon lib resources "[]" nodes]
    for_each_create_node_keys [of oci_map_resource_to_icon lib resources "[]" nodes]
  by (auto simp: create_nodes_def)

lemma small_nodes_created:
  "create_nodes gcp_map_resource_to_icon quiet_lib gcp_small_table = Inr small_nodes"
  by (simp add: create_nodes_def create_node_def gcp_small_table_def small_nodes_def quiet_lib_def
      gcp_map_resource_to_icon_def gcp_mappings_def)

lemma looped_connections_drawn:
  "draw_connections small_nodes looped_connections =
     [(''google_compute_instance.vm1'', ''google_compute_subnetwork.subnet-a'')]"
  by (simp add: draw_connections_def small_nodes_def looped_connections_def)

theorem drawn_edges_are_between_distinct_nodes_witness:
  "draw_connections small_nodes looped_connections =
     [(''google_compute_instance.vm1'', ''google_compute_subnetwork.subnet-a'')] \<and>
   ''google_compute_instance.vm1'' \<in> fst ` set small_nodes \<and>
   ''google_compute_subnetwork.subnet-a'' \<in> fst ` set small_nodes \<and>
   create_nodes gcp_map_resource_to_icon quiet_lib gcp_small_table = Inr small_nodes \<and>
   fst ` set small_nodes = fst ` set gcp_small_table"
proof -
  have "(''google_compute_instance.vm1'', ''google_compute_subnetwork.subnet-a'')
          \<in> set (draw_connections small_nodes looped_connections)"
    by (simp add: looped_connections_drawn)
  note m = this
  note T = drawn_edges_are_between_distinct_nodes
    [of small_nodes looped_connections quiet_lib gcp_small_table]
  have "fst (''google_compute_instance.vm1'', ''google_compute_subnetwork.subnet-a'')
          \<in> fst ` set small_nodes \<and>
        snd (''google_compute_instance.vm1'', ''google_compute_subnetwork.subnet-a'')
          \<in> fst ` set small_nodes"
    using T [THEN conjunct1, THEN bspec, OF m] by (simp only: simp_thms)
  then have a: "''google_compute_instance.vm1'' \<in> fst ` set small_nodes \<and>
      ''google_compute_subnetwork.subnet-a'' \<in> fst ` set small_nodes"
    by (simp only: fst_conv snd_conv)
  have b: "fst ` set small_nodes = fst ` set gcp_small_table"
    using T [THEN conjunct2, THEN mp, OF disjI1, OF small_nodes_created] .
  show ?thesis
    using a b looped_connections_drawn small_nodes_created by (simp only: simp_thms)
qed

subsection \<open>Loops and connection sets\<close>

lemma py_eq_JStr [simp]: "py_eq rt a (JStr s) \<longleftrightarrow> a = JStr s"
  by (cases a) (auto split: option.splits)

lemma py_eq_JStr_left [simp]: "py_eq rt (JStr s) b \<longleftrightarrow> b = JStr s"
  by (cases b) auto

lemma for_each_append:
  "for_each body (xs @ ys) s =
     (case for_each body xs s of Inl e \<Rightarrow> Inl e | Inr s' \<Rightarrow> for_each body ys s')"
  by (induction xs arbitrary: s) (simp_all split: sum.splits)

lemma for_each_preserves:
  assumes "for_each body xs s = Inr s'" "P s"
    and "\<And>x t t'. x \<in> set xs \<Longrightarrow> body x t = Inr t' \<Longrightarrow> P t \<Longrightarrow> P t'"
  shows "P s'"
  using assms
proof (induction xs arbitrary: s)
  case Nil
  then show ?case by simp
next
  case (Cons x xs)
  from Cons.prems(1) obtain t where a: "body x s = Inr t" and b: "for_each body xs t = Inr s'"
    by (auto split: sum.splits)
  have "P t" using Cons.prems(3) [OF _ a Cons.prems(2)] by simp
  moreover have "P u'" if "y \<in> set xs" "body y u = Inr u'" "P u" for y u u'
    using Cons.prems(3) [of y u u'] that by simp
  ultimately show ?case using Cons.IH [OF b] by blast
qed

lemma for_each_establishes:
  assumes "for_each body xs s = Inr s'" "x \<in> set xs"
    and "\<And>t t'. body x t = Inr t' \<Longrightarrow> P t'"
    and "\<And>y t t'. y \<in> set xs \<Longrightarrow> body y t = Inr t' \<Longrightarrow> P t \<Longrightarrow> P t'"
  shows "P s'"
proof -
  obtain pre post where xs: "xs = pre @ x # post"
    using assms(2) by (auto simp: in_set_conv_decomp)
  obtain s1 where "for_each body pre s = Inr s1" and r: "for_each body (x # post) s1 = Inr s'"
    using assms(1) unfolding xs by (auto simp: for_each_append split: sum.splits)
  from r obtain s2 where a: "body x s1 = Inr s2" and b: "for_each body post s2 = Inr s'"
    by (auto split: sum.splits)
  have "P s2" using assms(3) [OF a] .
  moreover have "P u'" if "y \<in> set post" "body y u = Inr u'" "P u" for y u u'
    using assms(4) [of y u u'] that unfolding xs by simp
  ultimately show ?thesis
    using for_each_preserves [OF b, of P] by blast
qed

lemma for_each_total:
  assumes "I s" and "\<And>x t. x \<in> set xs \<Longrightarrow> I t \<Longrightarrow> \<exists>t'. body x t = Inr t' \<and> I t'"
  shows "\<exists>s'. for_each body xs s = Inr s' \<and> I s'"
  using assms
proof (induction xs arbitrary: s)
  case Nil
  then show ?case by simp
next
  case (Cons x xs)
  obtain t where a: "body x s = Inr t" and i: "I t"
    using Cons.prems(2) [of x s] Cons.prems(1) by auto
  show ?case using Cons.IH [OF i] Cons.prems(2) a by simp
qed

lemma extends_refl: "extends c c"
  by (simp add: extends_def)

lemma extends_trans: "extends a b \<Longrightarrow> extends b c \<Longrightarrow> extends a c"
  by (simp add: extends_def)

lemma extends_connected: "extends c c' \<Longrightarrow> connected c k x \<Longrightarrow> connected c' k x"
  by (simp add: extends_def)

lemma extends_keys: "extends c c' \<Longrightarrow> fst ` set c' = fst ` set c"
  by (simp add: extends_def)

lemma connected_key: "connected c k x \<Longrightarrow> k \<in> fst ` set c"
  by (auto simp: connected_def split: option.splits dest: map_of_SomeD intro: rev_image_eqI)

lemma conn_add_extends:
  assumes "conn_add c k x = Inr c'"
  shows "extends c c' \<and> connected c' k x"
proof -
  obtain xs where m: "map_of c k = Some xs" and c': "c' = dict_set c k (set_add xs x)"
    using assms by (auto simp: conn_add_def split: option.splits)
  have k: "k \<in> fst ` set c" using m by (auto dest: map_of_SomeD intro: rev_image_eqI)
  have "fst ` set c' = fst ` set c" unfolding c' using k by (auto simp: keys_dict_set)
  moreover have "connected c' k' y" if "connected c k' y" for k' y
    using that m unfolding c' connected_def
    by (auto simp: map_of_dict_set set_add_def split: option.splits)
  moreover have "connected c' k x"
    unfolding c' connected_def by (simp add: map_of_dict_set set_add_def)
  ultimately show ?thesis by (simp add: extends_def)
qed

lemma conn_add_total: "k \<in> fst ` set c \<Longrightarrow> \<exists>c'. conn_add c k x = Inr c'"
  by (auto simp: conn_add_def map_of_eq_None_iff split: option.splits)

lemma for_each_extends:
  assumes "for_each body xs s = Inr s'"
    and "\<And>x t t'. x \<in> set xs \<Longrightarrow> body x t = Inr t' \<Longrightarrow> extends t t'"
  shows "extends s s'"
  using for_each_preserves [OF assms(1), of "extends s"] assms(2) extends_refl extends_trans
  by blast

lemma conn_add_ext: "conn_add c k x = Inr c' \<Longrightarrow> extends c c'"
  using conn_add_extends by blast

lemma conn_add_conn: "conn_add c k x = Inr c' \<Longrightarrow> connected c' k x"
  using conn_add_extends by blast

subsection \<open>gcp.py: the loops only add connections\<close>

lemma gcp_common_body_extends:
  "gcp_common_body rt k v other c = Inr c' \<Longrightarrow> extends c c'"
  by (auto simp: gcp_common_body_def extends_refl split: sum.splits if_splits
      dest: conn_add_ext)

lemma gcp_common_extends:
  assumes "gcp_common rt T k attr c = Inr c'"
  shows "extends c c'"
proof (cases "snd attr")
  case (JStr s)
  then have "for_each (gcp_common_body rt k (JStr s)) T c = Inr c'"
    using assms by (simp add: gcp_common_def)
  then show ?thesis by (rule for_each_extends) (rule gcp_common_body_extends)
qed (use assms in \<open>simp_all add: gcp_common_def extends_refl\<close>)

lemma gcp_instance_body_extends:
  "gcp_instance_body rt k sid nid other c = Inr c' \<Longrightarrow> extends c c'"
  by (auto simp: gcp_instance_body_def extends_refl split: sum.splits if_splits
      dest!: conn_add_ext intro: extends_trans)

lemma gcp_subnetwork_body_extends:
  "gcp_subnetwork_body rt k r nid other c = Inr c' \<Longrightarrow> extends c c'"
  by (auto simp: gcp_subnetwork_body_def extends_refl split: sum.splits if_splits
      dest!: conn_add_ext intro: extends_trans)

lemma gcp_firewall_body_extends:
  "gcp_firewall_body rt k nid other c = Inr c' \<Longrightarrow> extends c c'"
  by (auto simp: gcp_firewall_body_def extends_refl split: sum.splits if_splits
      dest!: conn_add_ext intro: extends_trans)

lemma gcp_named_body_extends:
  "gcp_named_body rt k ty n other c = Inr c' \<Longrightarrow> extends c c'"
  by (auto simp: gcp_named_body_def extends_refl split: sum.splits if_splits
      dest!: conn_add_ext)

lemma gcp_specific_extends:
  assumes "gcp_specific rt T k r c = Inr c'"
  shows "extends c c'"
  using assms
  by (auto simp: gcp_specific_def extends_refl split: if_splits sum.splits
      intro: for_each_extends gcp_instance_body_extends gcp_subnetwork_body_extends
        gcp_firewall_body_extends gcp_named_body_extends)

lemma connected_dict_set_other:
  "k' \<noteq> k \<Longrightarrow> connected (dict_set c k' v) k x = connected c k x"
  by (simp add: connected_def map_of_dict_set)

lemma gcp_connect_resource_step:
  assumes "gcp_connect_resource rt T entry c = Inr c'"
  shows "fst ` set c' = insert (fst entry) (fst ` set c) \<and>
         (\<forall>k x. k \<noteq> fst entry \<longrightarrow> connected c k x \<longrightarrow> connected c' k x)"
proof -
  obtain c1 where a: "for_each (gcp_common rt T (fst entry)) (attributes (snd entry))
                        (dict_set c (fst entry) []) = Inr c1"
    and b: "gcp_specific rt T (fst entry) (snd entry) c1 = Inr c'"
    using assms by (auto simp: gcp_connect_resource_def split: sum.splits)
  have "extends (dict_set c (fst entry) []) c1"
    using a by (rule for_each_extends) (rule gcp_common_extends)
  then have e: "extends (dict_set c (fst entry) []) c'"
    using gcp_specific_extends [OF b] by (rule extends_trans)
  have "fst ` set c' = insert (fst entry) (fst ` set c)"
    using extends_keys [OF e] by (simp add: keys_dict_set)
  moreover have "connected c' k x" if "k \<noteq> fst entry" "connected c k x" for k x
    using extends_connected [OF e, of k x] that by (simp add: connected_dict_set_other)
  ultimately show ?thesis by blast
qed

lemma gcp_connect_resource_specific:
  assumes "gcp_connect_resource rt T entry c = Inr c'"
  obtains c1 where "gcp_specific rt T (fst entry) (snd entry) c1 = Inr c'"
  using assms by (auto simp: gcp_connect_resource_def split: sum.splits)

lemma gcp_loop_keys:
  "for_each (gcp_connect_resource rt T) xs c = Inr c' \<Longrightarrow>
   fst ` set c' = fst ` set xs \<union> fst ` set c"
proof (induction xs arbitrary: c)
  case Nil
  then show ?case by simp
next
  case (Cons x xs)
  then obtain c1 where a: "gcp_connect_resource rt T x c = Inr c1"
    and b: "for_each (gcp_connect_resource rt T) xs c1 = Inr c'"
    by (auto split: sum.splits)
  show ?case using Cons.IH [OF b] gcp_connect_resource_step [OF a] by auto
qed

lemma gcp_loop_keeps:
  assumes "for_each (gcp_connect_resource rt T) xs c = Inr c'"
    and "k \<notin> fst ` set xs" "connected c k x"
  shows "connected c' k x"
proof -
  have "connected t' k x"
    if "y \<in> set xs" "gcp_connect_resource rt T y t = Inr t'" "connected t k x" for y t t'
  proof -
    have "k \<noteq> fst y" using that(1) assms(2) by auto
    then show ?thesis using gcp_connect_resource_step [OF that(2)] that(3) by blast
  qed
  then show ?thesis
    using for_each_preserves [OF assms(1), of "\<lambda>t. connected t k x"] assms(3) by blast
qed

subsection \<open>gcp.py: the rules of a firewall and of an instance\<close>

lemma gcp_firewall_body_hit:
  assumes "gcp_firewall_body rt k nid other c = Inr c'" "fst other \<noteq> k"
    and "rtype (snd other) = JStr ''google_compute_instance''"
  shows "connected c' k (fst other)"
  using assms by (auto simp: gcp_firewall_body_def dest: conn_add_conn)

lemma gcp_specific_firewall:
  assumes "gcp_specific rt T k r c = Inr c'" "rtype r = JStr ''google_compute_firewall''"
    and "(i, ri) \<in> set T" "i \<noteq> k" "rtype ri = JStr ''google_compute_instance''"
  shows "connected c' k i"
proof -
  obtain nid where l: "for_each (gcp_firewall_body rt k nid) T c = Inr c'"
    using assms(1,2) by (auto simp: gcp_specific_def split: sum.splits)
  show ?thesis
  proof (rule for_each_establishes [OF l assms(3), of "\<lambda>t. connected t k i"])
    fix t t' assume "gcp_firewall_body rt k nid (i, ri) t = Inr t'"
    then show "connected t' k i"
      using gcp_firewall_body_hit [of rt k nid "(i, ri)" t t'] assms(4,5) by simp
  next
    fix y t t' assume "gcp_firewall_body rt k nid y t = Inr t'" "connected t k i"
    then show "connected t' k i"
      using gcp_firewall_body_extends extends_connected by blast
  qed
qed

lemma gcp_instance_body_hit:
  assumes "gcp_instance_body rt k sid nid other c = Inr c'" "fst other \<noteq> k"
    and "rtype (snd other) = JStr ''google_compute_subnetwork''"
    and "rname (snd other) = JStr sid"
  shows "connected c' k (fst other) \<and> connected c' (fst other) k"
proof -
  obtain ca where a: "conn_add c k (fst other) = Inr ca"
    and b: "conn_add ca (fst other) k = Inr c'"
    using assms by (auto simp: gcp_instance_body_def split: sum.splits)
  have "connected ca k (fst other)" using a by (rule conn_add_conn)
  then have "connected c' k (fst other)"
    using conn_add_ext [OF b] extends_connected by blast
  moreover have "connected c' (fst other) k" using b by (rule conn_add_conn)
  ultimately show ?thesis by simp
qed

lemma gcp_specific_instance:
  assumes "gcp_specific rt T k r c = Inr c'" "rtype r = JStr ''google_compute_instance''"
    and "dict_get (attributes r) ''subnetwork'' (JStr []) = JStr sub"
    and "(s, rs) \<in> set T" "s \<noteq> k" "rtype rs = JStr ''google_compute_subnetwork''"
    and "rname rs = JStr (last_segment sub)"
  shows "connected c' k s \<and> connected c' s k"
proof -
  obtain nid where l: "for_each (gcp_instance_body rt k (last_segment sub) nid) T c = Inr c'"
    using assms(1,2,3) by (auto simp: gcp_specific_def split_last_def split: sum.splits)
  show ?thesis
  proof (rule for_each_establishes [OF l assms(4), of "\<lambda>t. connected t k s \<and> connected t s k"])
    fix t t' assume "gcp_instance_body rt k (last_segment sub) nid (s, rs) t = Inr t'"
    then show "connected t' k s \<and> connected t' s k"
      using gcp_instance_body_hit [of rt k "last_segment sub" nid "(s, rs)" t t'] assms(5,6,7)
      by simp
  next
    fix y t t'
    assume "gcp_instance_body rt k (last_segment sub) nid y t = Inr t'"
      "connected t k s \<and> connected t s k"
    then show "connected t' k s \<and> connected t' s k"
      using gcp_instance_body_extends extends_connected by blast
  qed
qed

lemma gcp_outer_split:
  assumes "gcp_create_connections rt T = Inr conns" "distinct (map fst T)" "(k, r) \<in> set T"
  obtains pre post c1 c2 where "T = pre @ (k, r) # post"
    "k \<notin> fst ` set pre" "k \<notin> fst ` set post"
    "for_each (gcp_connect_resource rt T) pre [] = Inr c1"
    "gcp_connect_resource rt T (k, r) c1 = Inr c2"
    "for_each (gcp_connect_resource rt T) post c2 = Inr conns"
    "fst ` set c1 = fst ` set pre"
proof -
  obtain pre post where T: "T = pre @ (k, r) # post"
    using assms(3) by (auto simp: in_set_conv_decomp)
  have d: "k \<notin> fst ` set pre" "k \<notin> fst ` set post"
    using assms(2) unfolding T by auto
  have "for_each (gcp_connect_resource rt T) (pre @ (k, r) # post) [] = Inr conns"
    using assms(1) unfolding gcp_create_connections_def by (subst T [symmetric])
  then obtain c1 c2 where a: "for_each (gcp_connect_resource rt T) pre [] = Inr c1"
    and b: "gcp_connect_resource rt T (k, r) c1 = Inr c2"
    and c: "for_each (gcp_connect_resource rt T) post c2 = Inr conns"
    by (auto simp: for_each_append split: sum.splits)
  have "fst ` set c1 = fst ` set pre" using gcp_loop_keys [OF a] by simp
  then show ?thesis using that T d a b c by blast
qed

lemma gcp_firewall_connections:
  assumes "gcp_create_connections rt T = Inr conns" "distinct (map fst T)"
    and "(f, rf) \<in> set T" "(i, ri) \<in> set T"
    and "rtype rf = JStr ''google_compute_firewall''"
    and "rtype ri = JStr ''google_compute_instance''"
  shows "connected conns f i"
proof -
  have ne: "i \<noteq> f"
  proof
    assume "i = f"
    then have "ri = rf" using assms(2,3,4) by (metis eq_key_imp_eq_value)
    then show False using assms(5,6) by simp
  qed
  obtain post c1 c2 where fp: "f \<notin> fst ` set post"
    and b: "gcp_connect_resource rt T (f, rf) c1 = Inr c2"
    and c: "for_each (gcp_connect_resource rt T) post c2 = Inr conns"
    using gcp_outer_split [OF assms(1,2,3)] by metis
  obtain c0 where "gcp_specific rt T f rf c0 = Inr c2"
    using gcp_connect_resource_specific [OF b] by auto
  then have "connected c2 f i"
    using gcp_specific_firewall assms(4,5,6) ne by blast
  then show ?thesis using gcp_loop_keeps [OF c fp] by blast
qed

lemma gcp_instance_subnetwork_connections:
  assumes "gcp_create_connections rt T = Inr conns" "distinct (map fst T)"
    and "(i, ri) \<in> set T" "(s, rs) \<in> set T" "i \<noteq> s"
    and "rtype ri = JStr ''google_compute_instance''"
    and "rtype rs = JStr ''google_compute_subnetwork''"
    and "dict_get (attributes ri) ''subnetwork'' (JStr []) = JStr sub"
    and "rname rs = JStr (last_segment sub)"
  shows "connected conns i s \<and> connected conns s i"
proof -
  obtain pre post c1 c2 where T: "T = pre @ (i, ri) # post"
    and ip: "i \<notin> fst ` set post"
    and b: "gcp_connect_resource rt T (i, ri) c1 = Inr c2"
    and c: "for_each (gcp_connect_resource rt T) post c2 = Inr conns"
    and k1: "fst ` set c1 = fst ` set pre"
    using gcp_outer_split [OF assms(1,2,3)] by metis
  obtain c0 where "gcp_specific rt T i ri c0 = Inr c2"
    using gcp_connect_resource_specific [OF b] by auto
  then have h: "connected c2 i s \<and> connected c2 s i"
    using gcp_specific_instance [of rt T i ri c0 c2 sub s rs] assms(4,5,6,7,8,9) by simp
  have "s \<in> fst ` set c2" using h connected_key by blast
  then have "s \<in> fst ` set pre"
    using gcp_connect_resource_step [OF b] k1 assms(5) by auto
  then have sp: "s \<notin> fst ` set post"
    using assms(2) unfolding T by auto
  show ?thesis
    using h gcp_loop_keeps [OF c ip] gcp_loop_keeps [OF c sp] by blast
qed

subsection \<open>oci.py: the connection loop completes and links instances and security groups\<close>

lemma oci_link_extends:
  assumes "oci_link c a b = Inr c'"
  shows "extends c c' \<and> connected c' a b \<and> connected c' b a"
proof -
  obtain c1 where x: "conn_add c a b = Inr c1" and y: "conn_add c1 b a = Inr c'"
    using assms by (auto simp: oci_link_def split: sum.splits)
  have "extends c c'" using conn_add_ext [OF x] conn_add_ext [OF y] by (rule extends_trans)
  moreover have "connected c' a b"
    using conn_add_conn [OF x] conn_add_ext [OF y] extends_connected by blast
  moreover have "connected c' b a" using y by (rule conn_add_conn)
  ultimately show ?thesis by simp
qed

lemma oci_link_total:
  assumes "a \<in> fst ` set c" "b \<in> fst ` set c"
  shows "\<exists>c'. oci_link c a b = Inr c'"
proof -
  obtain c1 where x: "conn_add c a b = Inr c1" using conn_add_total [OF assms(1)] by blast
  have "b \<in> fst ` set c1" using extends_keys [OF conn_add_ext [OF x]] assms(2) by simp
  then obtain c2 where "conn_add c1 b a = Inr c2" using conn_add_total by blast
  then show ?thesis using x by (simp add: oci_link_def)
qed

lemma oci_id_body_extends:
  "oci_id_body rt k ty v other c = Inr c' \<Longrightarrow> extends c c'"
  by (auto simp: oci_id_body_def extends_refl split: if_splits dest: oci_link_extends)

lemma oci_type_body_extends:
  "oci_type_body rt k ty other c = Inr c' \<Longrightarrow> extends c c'"
  by (auto simp: oci_type_body_def extends_refl split: if_splits dest: oci_link_extends)

lemma oci_type_body_hit:
  "oci_type_body rt k ty other c = Inr c' \<Longrightarrow> rtype (snd other) = JStr ty \<Longrightarrow>
   connected c' k (fst other) \<and> connected c' (fst other) k"
  by (auto simp: oci_type_body_def dest: oci_link_extends)

lemma oci_connect_by_id_extends:
  assumes "oci_connect_by_id rt T k attrs key ty c = Inr c'"
  shows "extends c c'"
proof (cases "py_truthy rt (dict_get1 attrs key)")
  case True
  then have "for_each (oci_id_body rt k ty (dict_get1 attrs key)) T c = Inr c'"
    using assms by (simp add: oci_connect_by_id_def)
  then show ?thesis by (rule for_each_extends) (rule oci_id_body_extends)
next
  case False
  then show ?thesis using assms by (simp add: oci_connect_by_id_def extends_refl)
qed

lemma oci_type_loop_extends:
  "for_each (oci_type_body rt k ty) T c = Inr c' \<Longrightarrow> extends c c'"
  by (rule for_each_extends) (auto dest: oci_type_body_extends)

lemma oci_specific_extends:
  assumes "oci_specific rt T k r c = Inr c'"
  shows "extends c c'"
  using assms
  by (auto simp: oci_specific_def extends_refl split: if_splits sum.splits
      dest!: oci_connect_by_id_extends oci_type_loop_extends
      intro: extends_trans)

lemma oci_connect_resource_extends:
  assumes "oci_connect_resource rt T entry c = Inr c'"
  shows "extends c c'"
  using assms
  by (auto simp: oci_connect_resource_def split: sum.splits
      dest!: oci_connect_by_id_extends oci_specific_extends intro: extends_trans)

lemma oci_id_loop_total:
  assumes "fst ` set T \<subseteq> fst ` set c" "k \<in> fst ` set c"
  shows "\<exists>c'. for_each (oci_id_body rt k ty v) T c = Inr c' \<and> fst ` set c' = fst ` set c"
proof (rule for_each_total [of "\<lambda>t::connections. fst ` set t = fst ` set c"])
  show "fst ` set c = fst ` set c" by simp
next
  fix x and t :: connections assume x: "x \<in> set T" and t: "fst ` set t = fst ` set c"
  have "fst x \<in> fst ` set t" "k \<in> fst ` set t" using x t assms by auto
  then obtain t' where l: "oci_link t k (fst x) = Inr t'" using oci_link_total by blast
  have "fst ` set t' = fst ` set t" using oci_link_extends [OF l] extends_keys by blast
  then show "\<exists>t'. oci_id_body rt k ty v x t = Inr t' \<and> fst ` set t' = fst ` set c"
    using l t by (simp add: oci_id_body_def)
qed

lemma oci_type_loop_total:
  assumes "fst ` set T \<subseteq> fst ` set c" "k \<in> fst ` set c"
  shows "\<exists>c'. for_each (oci_type_body rt k ty) T c = Inr c' \<and> fst ` set c' = fst ` set c"
proof (rule for_each_total [of "\<lambda>t::connections. fst ` set t = fst ` set c"])
  show "fst ` set c = fst ` set c" by simp
next
  fix x and t :: connections assume x: "x \<in> set T" and t: "fst ` set t = fst ` set c"
  have "fst x \<in> fst ` set t" "k \<in> fst ` set t" using x t assms by auto
  then obtain t' where l: "oci_link t k (fst x) = Inr t'" using oci_link_total by blast
  have "fst ` set t' = fst ` set t" using oci_link_extends [OF l] extends_keys by blast
  then show "\<exists>t'. oci_type_body rt k ty x t = Inr t' \<and> fst ` set t' = fst ` set c"
    using l t by (simp add: oci_type_body_def)
qed

lemma oci_connect_by_id_total:
  assumes "fst ` set T \<subseteq> fst ` set c" "k \<in> fst ` set c"
  shows "\<exists>c'. oci_connect_by_id rt T k attrs key ty c = Inr c' \<and> fst ` set c' = fst ` set c"
  using oci_id_loop_total [OF assms, of rt ty "dict_get1 attrs key"]
  by (simp add: oci_connect_by_id_def)

lemma oci_specific_total:
  assumes "fst ` set T \<subseteq> fst ` set c" "k \<in> fst ` set c"
  shows "\<exists>c'. oci_specific rt T k r c = Inr c' \<and> fst ` set c' = fst ` set c"
proof -
  define Q where "Q x \<longleftrightarrow> (\<exists>c'. x = Inr c' \<and> fst ` set c' = fst ` set c)"
    for x :: "error + connections"
  have ifQ: "Q (if b then x else y)" if "Q x" "Q y" for b x y
    using that by simp
  have q0: "Q (Inr c)" by (simp add: Q_def)
  have q1: "Q (oci_connect_by_id rt T k attrs key ty c)" for attrs key ty
    using oci_connect_by_id_total [OF assms, of rt attrs key ty] by (simp add: Q_def)
  have q2: "Q (case oci_connect_by_id rt T k attrs key ty c of
                 Inl e \<Rightarrow> Inl e
               | Inr c1 \<Rightarrow> for_each (oci_type_body rt k ty') T c1)" for attrs key ty ty'
  proof -
    obtain c1 where a: "oci_connect_by_id rt T k attrs key ty c = Inr c1"
      and k1: "fst ` set c1 = fst ` set c"
      using oci_connect_by_id_total [OF assms] by blast
    have "fst ` set T \<subseteq> fst ` set c1" "k \<in> fst ` set c1" using k1 assms by simp_all
    from oci_type_loop_total [OF this] obtain c' where
      "for_each (oci_type_body rt k ty') T c1 = Inr c'" "fst ` set c' = fst ` set c1" by blast
    then show ?thesis using a k1 by (simp add: Q_def)
  qed
  have "Q (oci_specific rt T k r c)"
    unfolding oci_specific_def by (intro ifQ q0 q1 q2)
  then show ?thesis by (simp add: Q_def)
qed

lemma oci_connect_resource_total:
  assumes "fst ` set T \<subseteq> fst ` set c" "entry \<in> set T"
  shows "\<exists>c'. oci_connect_resource rt T entry c = Inr c' \<and> fst ` set c' = fst ` set c"
proof -
  have k: "fst entry \<in> fst ` set c" using assms by auto
  obtain c1 where a: "oci_specific rt T (fst entry) (snd entry) c = Inr c1"
    and k1: "fst ` set c1 = fst ` set c"
    using oci_specific_total [OF assms(1) k] by blast
  have "fst ` set T \<subseteq> fst ` set c1" "fst entry \<in> fst ` set c1" using k1 assms(1) k by simp_all
  from oci_connect_by_id_total [OF this] obtain c' where
    "oci_connect_by_id rt T (fst entry) (attributes (snd entry))
       ''compartment_id'' ''oci_identity_compartment'' c1 = Inr c'"
    "fst ` set c' = fst ` set c1" by blast
  then show ?thesis using a k1 by (simp add: oci_connect_resource_def)
qed

lemma oci_create_connections_total:
  "\<exists>conns. oci_create_connections rt T = Inr conns"
proof -
  let ?c = "map (\<lambda>entry. (fst entry, [])) T"
  have k: "fst ` set ?c = fst ` set T" by (simp add: image_image)
  have "\<exists>s'. for_each (oci_connect_resource rt T) T ?c = Inr s' \<and> fst ` set s' = fst ` set T"
  proof (rule for_each_total [of "\<lambda>t::connections. fst ` set t = fst ` set T"])
    show "fst ` set ?c = fst ` set T" by (rule k)
  next
    fix x and t :: connections assume "x \<in> set T" "fst ` set t = fst ` set T"
    then show "\<exists>t'. oci_connect_resource rt T x t = Inr t' \<and> fst ` set t' = fst ` set T"
      using oci_connect_resource_total [of T t x rt] by simp
  qed
  then show ?thesis by (auto simp: oci_create_connections_def)
qed

lemma oci_specific_instance:
  assumes "oci_specific rt T k r c = Inr c'" "rtype r = JStr ''oci_core_instance''"
    and "(n, rn) \<in> set T" "rtype rn = JStr ''oci_core_network_security_group''"
  shows "connected c' k n \<and> connected c' n k"
proof -
  obtain c1 where
    l: "for_each (oci_type_body rt k ''oci_core_network_security_group'') T c1 = Inr c'"
    using assms(1,2) by (auto simp: oci_specific_def split: sum.splits)
  show ?thesis
  proof (rule for_each_establishes [OF l assms(3), of "\<lambda>t. connected t k n \<and> connected t n k"])
    fix t t'
    assume "oci_type_body rt k ''oci_core_network_security_group'' (n, rn) t = Inr t'"
    then show "connected t' k n \<and> connected t' n k"
      using oci_type_body_hit [of rt k _ "(n, rn)" t t'] assms(4) by simp
  next
    fix y t t'
    assume "oci_type_body rt k ''oci_core_network_security_group'' y t = Inr t'"
      "connected t k n \<and> connected t n k"
    then show "connected t' k n \<and> connected t' n k"
      using oci_type_body_extends extends_connected by blast
  qed
qed

lemma oci_instance_nsg_connections:
  assumes "(i, ri) \<in> set T" "(n, rn) \<in> set T"
    and "rtype ri = JStr ''oci_core_instance''"
    and "rtype rn = JStr ''oci_core_network_security_group''"
  shows "\<exists>conns. oci_create_connections rt T = Inr conns \<and>
           connected conns i n \<and> connected conns n i"
proof -
  obtain conns where c: "oci_create_connections rt T = Inr conns"
    using oci_create_connections_total by blast
  then have l: "for_each (oci_connect_resource rt T) T (map (\<lambda>entry. (fst entry, [])) T)
                  = Inr conns"
    by (simp add: oci_create_connections_def)
  have "connected conns i n \<and> connected conns n i"
  proof (rule for_each_establishes [OF l assms(1), of "\<lambda>t. connected t i n \<and> connected t n i"])
    fix t t' assume a: "oci_connect_resource rt T (i, ri) t = Inr t'"
    then obtain t1 where s: "oci_specific rt T i ri t = Inr t1"
      and e: "oci_connect_by_id rt T i (attributes ri)
                ''compartment_id'' ''oci_identity_compartment'' t1 = Inr t'"
      by (auto simp: oci_connect_resource_def split: sum.splits)
    have "connected t1 i n \<and> connected t1 n i"
      using oci_specific_instance [OF s assms(3,2,4)] .
    then show "connected t' i n \<and> connected t' n i"
      using oci_connect_by_id_extends [OF e] extends_connected by blast
  next
    fix y t t'
    assume "oci_connect_resource rt T y t = Inr t'" "connected t i n \<and> connected t n i"
    then show "connected t' i n \<and> connected t' n i"
      using oci_connect_resource_extends extends_connected by blast
  qed
  then show ?thesis using c by simp
qed

subsection \<open>The concrete tables\<close>

lemmas eval_connections =
  gcp_create_connections_def gcp_connect_resource_def gcp_common_def gcp_common_body_def
  gcp_specific_def gcp_instance_body_def gcp_subnetwork_body_def gcp_firewall_body_def
  gcp_named_body_def py_in_def split_last_def last_segment_def split_def dict_get_def
  conn_add_def set_add_def

lemma small_connections_created:
  "gcp_create_connections plain_rt gcp_small_table = Inr small_connections"
  by (simp add: gcp_small_table_def small_connections_def eval_connections)

text \<open>
  gcp.py creates \<^verbatim>\<open>connections[resource_id]\<close> at each resource's own turn, so line 112,
  \<^verbatim>\<open>connections[other_id].add(resource_id)\<close>, raises \<^verbatim>\<open>KeyError\<close> when the instance comes
  before its subnetwork.
\<close>

lemma instance_first_raises:
  "gcp_create_connections plain_rt instance_first_table
     = Inl (KeyError ''google_compute_subnetwork.subnet-a'')"
  by (simp add: instance_first_table_def eval_connections)

lemma lookalike_connections_created:
  "gcp_create_connections plain_rt lookalike_table = Inr lookalike_connections"
  by (simp add: lookalike_table_def lookalike_connections_def eval_connections)

lemma lookalike_state_parsed: "gcp_parse_state plain_rt lookalike_state = Inr lookalike_table"
  by (simp add: lookalike_state_def lookalike_table_def eval_parse)

lemma instance_first_state_parsed:
  "gcp_parse_state plain_rt instance_first_state = Inr instance_first_table"
  by (simp add: instance_first_state_def instance_first_table_def eval_parse)

lemma oci_small_table_parsed: "oci_parse_state plain_rt oci_small_state = Inr oci_small_table"
  by (simp add: oci_small_state_def oci_small_table_def eval_parse)

lemma instance_first_state_wf: "wf_state instance_first_state"
  by (simp add: instance_first_state_def mk_state_def mk_resource_def mk_instance_def
      wf_state_def wf_resource_def wf_instance_def)

text \<open>
  On that state gcp.py ends in its exception handler, with a diagram library that raises
  nothing.
\<close>

lemma gcp_main_fails_when_instance_comes_first:
  "gcp_main plain_rt (one_file ''state.json'' instance_first_state) quiet_lib
     [Opt ''--state'' ''state.json'']
   = on_exception plain_rt (KeyError ''google_compute_subnetwork.subnet-a'')"
proof -
  have "create_nodes gcp_map_resource_to_icon quiet_lib instance_first_table \<noteq> Inl e" for e
    by (simp add: create_nodes_def create_node_def instance_first_table_def quiet_lib_def
        gcp_map_resource_to_icon_def gcp_mappings_def)
  then obtain ns where "create_nodes gcp_map_resource_to_icon quiet_lib instance_first_table = Inr ns"
    by (cases "create_nodes gcp_map_resource_to_icon quiet_lib instance_first_table") auto
  then show ?thesis
    by (simp add: gcp_main_def eval_cli gcp_parse_terraform_state_def one_file_def
        instance_first_state_parsed gcp_generate_diagram_def quiet_lib_def instance_first_raises)
qed

text \<open>
  C3, as amended. In gcp.py, whenever the connection loop completes on a resource table,
  every resource of type \<^verbatim>\<open>google_compute_instance\<close> and every resource of type
  \<^verbatim>\<open>google_compute_subnetwork\<close> whose name equals the last \<^verbatim>\<open>/\<close>-separated segment of the
  instance's \<^verbatim>\<open>subnetwork\<close> attribute (the empty text when the attribute is absent) are
  connected in both directions.
\<close>

theorem instance_subnetwork_connections:
  assumes "gcp_create_connections rt T = Inr conns" "distinct (map fst T)"
    and "(i, ri) \<in> set T" "rtype ri = JStr ''google_compute_instance''"
    and "(s, rs) \<in> set T" "rtype rs = JStr ''google_compute_subnetwork''"
    and "dict_get (attributes ri) ''subnetwork'' (JStr []) = JStr sub"
    and "rname rs = JStr (last_segment sub)"
  shows "connected conns i s \<and> connected conns s i"
proof -
  have "i \<noteq> s"
  proof
    assume "i = s"
    then have "ri = rs" using assms(2,3,5) by (metis eq_key_imp_eq_value)
    then show False using assms(4,6) by simp
  qed
  then show ?thesis
    using gcp_instance_subnetwork_connections [OF assms(1,2,3,5) _ assms(4,6,7,8)] by simp
qed

theorem instance_subnetwork_connections_witness:
  "gcp_create_connections plain_rt gcp_small_table = Inr small_connections \<and>
   last_segment ''projects/p/regions/r/subnetworks/subnet-a'' = ''subnet-a'' \<and>
   connected small_connections ''google_compute_instance.vm1'' ''google_compute_subnetwork.subnet-a'' \<and>
   connected small_connections ''google_compute_subnetwork.subnet-a'' ''google_compute_instance.vm1''"
proof -
  have d: "distinct (map fst gcp_small_table)" by (simp add: gcp_small_table_def)
  have i: "(''google_compute_instance.vm1'',
         \<lparr>rtype = JStr ''google_compute_instance'', rname = JStr ''vm1'',
          attributes = [(''name'', JStr ''vm1''),
                        (''subnetwork'', JStr ''projects/p/regions/r/subnetworks/subnet-a'')]\<rparr>)
        \<in> set gcp_small_table"
    by (simp add: gcp_small_table_def)
  have s: "(''google_compute_subnetwork.subnet-a'',
         \<lparr>rtype = JStr ''google_compute_subnetwork'', rname = JStr ''subnet-a'',
          attributes = [(''name'', JStr ''subnet-a''),
                        (''network'', JStr ''projects/p/global/networks/vpc'')]\<rparr>)
        \<in> set gcp_small_table"
    by (simp add: gcp_small_table_def)
  have l: "last_segment ''projects/p/regions/r/subnetworks/subnet-a'' = ''subnet-a''"
    by (simp add: last_segment_def split_def)
  have "connected small_connections ''google_compute_instance.vm1'' ''google_compute_subnetwork.subnet-a'' \<and>
   connected small_connections ''google_compute_subnetwork.subnet-a'' ''google_compute_instance.vm1''"
    by (rule instance_subnetwork_connections
          [OF small_connections_created d i _ s, of "''projects/p/regions/r/subnetworks/subnet-a''"])
       (simp_all add: dict_get_def l)
  then show ?thesis using small_connections_created l by simp
qed

text \<open>
  C3 as stated fails: the connection is not added exactly when the name equals the last
  segment. Here the last segment is \<^verbatim>\<open>subnet-a-2\<close>, the subnetwork is named \<^verbatim>\<open>subnet-a\<close>,
  and both directions are connected all the same: the instance by the common rule (the
  name occurs in one of its string attributes), the subnetwork by its own rule (its name
  occurs in the instance's \<^verbatim>\<open>subnetwork\<close> attribute).
\<close>

theorem instance_subnetwork_lookalike_counterexample:
  "gcp_parse_state plain_rt lookalike_state = Inr lookalike_table \<and>
   gcp_create_connections plain_rt lookalike_table = Inr lookalike_connections \<and>
   connected lookalike_connections
     ''google_compute_instance.vm1'' ''google_compute_subnetwork.subnet-a'' \<and>
   connected lookalike_connections
     ''google_compute_subnetwork.subnet-a'' ''google_compute_instance.vm1'' \<and>
   last_segment ''projects/p/regions/r/subnetworks/subnet-a-2'' \<noteq> ''subnet-a''"
  by (simp add: lookalike_state_parsed lookalike_connections_created)
     (simp add: lookalike_connections_def connected_def last_segment_def split_def)

text \<open>
  C9. Edges that depend on no attribute: in gcp.py, whenever the connection loop
  completes, every \<^verbatim>\<open>google_compute_firewall\<close> is connected to every
  \<^verbatim>\<open>google_compute_instance\<close> of the table; in oci.py the connection loop always
  completes, and every \<^verbatim>\<open>oci_core_instance\<close> and every
  \<^verbatim>\<open>oci_core_network_security_group\<close> of the table are connected in both directions.
\<close>

theorem unconditional_connections:
  "(gcp_create_connections rt T = Inr conns \<and> distinct (map fst T) \<and>
    (f, rf) \<in> set T \<and> rtype rf = JStr ''google_compute_firewall'' \<and>
    (i, ri) \<in> set T \<and> rtype ri = JStr ''google_compute_instance''
      \<longrightarrow> connected conns f i) \<and>
   ((v, rv) \<in> set T \<and> rtype rv = JStr ''oci_core_instance'' \<and>
    (n, rn) \<in> set T \<and> rtype rn = JStr ''oci_core_network_security_group''
      \<longrightarrow> (\<exists>c. oci_create_connections rt T = Inr c \<and> connected c v n \<and> connected c n v))"
  using gcp_firewall_connections [of rt T conns f rf i ri]
    oci_instance_nsg_connections [of v rv T n rn rt]
  by blast

theorem unconditional_connections_witness:
  "gcp_create_connections plain_rt gcp_small_table = Inr small_connections \<and>
   connected small_connections ''google_compute_firewall.fw1'' ''google_compute_instance.vm1'' \<and>
   oci_parse_state plain_rt oci_small_state = Inr oci_small_table \<and>
   (\<exists>c. oci_create_connections plain_rt oci_small_table = Inr c \<and>
        connected c ''oci_core_instance.web'' ''oci_core_network_security_group.guard'' \<and>
        connected c ''oci_core_network_security_group.guard'' ''oci_core_instance.web'')"
proof -
  let ?fw = "\<lparr>rtype = JStr ''google_compute_firewall'', rname = JStr ''fw1'',
               attributes = [(''name'', JStr ''fw1'')]\<rparr> :: unit resource"
  let ?vm = "\<lparr>rtype = JStr ''google_compute_instance'', rname = JStr ''vm1'',
               attributes = [(''name'', JStr ''vm1''),
                 (''subnetwork'', JStr ''projects/p/regions/r/subnetworks/subnet-a'')]\<rparr>
             :: unit resource"
  let ?web = "\<lparr>rtype = JStr ''oci_core_instance'', rname = JStr ''web'',
                attributes = [(''display_name'', JStr ''web'')]\<rparr> :: unit resource"
  let ?guard = "\<lparr>rtype = JStr ''oci_core_network_security_group'', rname = JStr ''guard'',
                  attributes = [(''display_name'', JStr ''guard'')]\<rparr> :: unit resource"
  have g: "gcp_create_connections plain_rt gcp_small_table = Inr small_connections \<and>
      distinct (map fst gcp_small_table) \<and>
      (''google_compute_firewall.fw1'', ?fw) \<in> set gcp_small_table \<and>
      rtype ?fw = JStr ''google_compute_firewall'' \<and>
      (''google_compute_instance.vm1'', ?vm) \<in> set gcp_small_table \<and>
      rtype ?vm = JStr ''google_compute_instance''"
    using small_connections_created by (simp add: gcp_small_table_def)
  have "connected small_connections ''google_compute_firewall.fw1'' ''google_compute_instance.vm1''"
    using unconditional_connections
      [where rt = plain_rt and T = gcp_small_table and conns = small_connections
         and f = "''google_compute_firewall.fw1''" and rf = ?fw
         and i = "''google_compute_instance.vm1''" and ri = ?vm,
       THEN conjunct1, THEN mp, OF g] .
  moreover have o: "(''oci_core_instance.web'', ?web) \<in> set oci_small_table \<and>
      rtype ?web = JStr ''oci_core_instance'' \<and>
      (''oci_core_network_security_group.guard'', ?guard) \<in> set oci_small_table \<and>
      rtype ?guard = JStr ''oci_core_network_security_group''"
    by (simp add: oci_small_table_def)
  have "\<exists>c. oci_create_connections plain_rt oci_small_table = Inr c \<and>
        connected c ''oci_core_instance.web'' ''oci_core_network_security_group.guard'' \<and>
        connected c ''oci_core_network_security_group.guard'' ''oci_core_instance.web''"
    using unconditional_connections
      [where rt = plain_rt and T = oci_small_table
         and v = "''oci_core_instance.web''" and rv = ?web
         and n = "''oci_core_network_security_group.guard''" and rn = ?guard,
       THEN conjunct2, THEN mp, OF o] .
  ultimately show ?thesis using small_connections_created oci_small_table_parsed by simp
qed

subsection \<open>oci.py completes on a well-formed state\<close>

text \<open>
  In oci.py nothing but an unhashable resource type or the diagram library can make
  \<^verbatim>\<open>generate_diagram\<close> raise, so a well-formed state whose types are hashable ends with
  the success message and status 0.
\<close>

lemma oci_create_nodes_total:
  assumes "never_raises lib" "list_all (\<lambda>e. hashable (rtype (snd e))) T"
  shows "\<exists>ns. create_nodes oci_map_resource_to_icon lib T = Inr ns"
proof -
  have "\<exists>s'. for_each (create_node oci_map_resource_to_icon lib) T [] = Inr s' \<and> True"
  proof (rule for_each_total [of "\<lambda>t. True"])
    fix x and t :: "(string \<times> icon \<times> 'a json) list"
    assume "x \<in> set T"
    then have "hashable (rtype (snd x))" using assms(2) by (simp add: list_all_iff)
    then have "\<exists>c. oci_map_resource_to_icon (rtype (snd x)) = Inr c"
      by (cases "rtype (snd x)")
         (auto simp: hashable_def oci_map_resource_to_icon_def split: option.splits)
    then show "\<exists>t'. create_node oci_map_resource_to_icon lib x t = Inr t' \<and> True"
      using assms(1) by (auto simp: create_node_def never_raises_def)
  qed simp
  then show ?thesis by (auto simp: create_nodes_def)
qed

lemma oci_generate_diagram_completes:
  assumes "never_raises lib" "list_all (\<lambda>e. hashable (rtype (snd e))) T"
  shows "oci_generate_diagram rt lib T out = None"
proof -
  obtain ns where n: "create_nodes oci_map_resource_to_icon lib T = Inr ns"
    using oci_create_nodes_total [OF assms] by blast
  obtain c where c: "oci_create_connections rt T = Inr c"
    using oci_create_connections_total by blast
  show ?thesis using assms(1) n c by (simp add: oci_generate_diagram_def never_raises_def)
qed

lemma oci_main_succeeds:
  assumes "wf_state state_data" "load (Some path) = Inr state_data"
    and "\<And>T. oci_parse_state rt state_data = Inr T \<Longrightarrow>
           list_all (\<lambda>e. hashable (rtype (snd e))) T"
    and "never_raises lib"
  shows "oci_main rt load lib [Opt ''--state'' path] = success (Some ''oci_infrastructure_diagram'')"
proof -
  obtain T where T: "oci_parse_state rt state_data = Inr T"
    using wf_state_parses [OF assms(1)] by blast
  have "oci_generate_diagram rt lib T (Some ''oci_infrastructure_diagram'') = None"
    using assms(4) assms(3) [OF T] by (rule oci_generate_diagram_completes)
  then show ?thesis
    using T assms(2) by (simp add: oci_main_def eval_cli oci_parse_terraform_state_def)
qed

end
